theory Spec2Isabelle
  imports Complex_Main
begin

section \<open>JavaScript values used by the pipeline\<close>

text \<open>
  The backend is JavaScript. Numbers are IEEE doubles there; the model keeps the value
  \<open>NaN\<close> apart (it arises from \<open>0 / 0\<close> on an empty document list) and represents every
  other number by the rational it denotes, so arithmetic is exact. Strings are byte
  strings. An optional property of an object is an \<open>option\<close>: \<open>None\<close> when the property is
  absent (\<open>undefined\<close>).
\<close>

datatype jsnum = NaN | Num rat

text \<open>\<open>!x\<close> for an optional string property: \<open>undefined\<close> and the empty string are falsy.\<close>

definition truthy :: "string option \<Rightarrow> bool" where
  "truthy v = (case v of None \<Rightarrow> False | Some s \<Rightarrow> s \<noteq> [])"

text \<open>\<open>a + b\<close>, \<open>a * b\<close>, \<open>Math.max\<close>, \<open>Math.min\<close>, \<open>Math.round\<close> and \<open>a >= b\<close>: \<open>NaN\<close> is
  contagious and every comparison with it is false; \<open>Math.round\<close> rounds halves up.\<close>

fun js_add :: "jsnum \<Rightarrow> jsnum \<Rightarrow> jsnum" where
  "js_add (Num a) (Num b) = Num (a + b)"
| "js_add _ _ = NaN"

fun js_mul :: "jsnum \<Rightarrow> jsnum \<Rightarrow> jsnum" where
  "js_mul (Num a) (Num b) = Num (a * b)"
| "js_mul _ _ = NaN"

fun Math_max :: "jsnum \<Rightarrow> jsnum \<Rightarrow> jsnum" where
  "Math_max (Num a) (Num b) = Num (max a b)"
| "Math_max _ _ = NaN"

fun Math_min :: "jsnum \<Rightarrow> jsnum \<Rightarrow> jsnum" where
  "Math_min (Num a) (Num b) = Num (min a b)"
| "Math_min _ _ = NaN"

fun Math_round :: "jsnum \<Rightarrow> jsnum" where
  "Math_round (Num a) = Num (of_int \<lfloor>a + 1 / 2\<rfloor>)"
| "Math_round NaN = NaN"

fun js_ge :: "jsnum \<Rightarrow> jsnum \<Rightarrow> bool" where
  "js_ge (Num a) (Num b) = (b \<le> a)"
| "js_ge _ _ = False"

text \<open>\<open>s / n\<close> for two array lengths with \<open>s \<le> n\<close> (a filtered array and the array itself):
  the only zero divisor is \<open>0 / 0\<close>, which is \<open>NaN\<close>.\<close>

definition js_div_lengths :: "nat \<Rightarrow> nat \<Rightarrow> jsnum" where
  "js_div_lengths s n = (if n = 0 then NaN else Num (of_nat s / of_nat n))"

text \<open>A non-negative integer in a template literal prints in decimal.\<close>

definition digit_char :: "nat \<Rightarrow> char" where
  "digit_char d =
     (if d = 0 then CHR ''0'' else if d = 1 then CHR ''1'' else if d = 2 then CHR ''2''
      else if d = 3 then CHR ''3'' else if d = 4 then CHR ''4'' else if d = 5 then CHR ''5''
      else if d = 6 then CHR ''6'' else if d = 7 then CHR ''7'' else if d = 8 then CHR ''8''
      else CHR ''9'')"

fun show_nat :: "nat \<Rightarrow> string" where
  "show_nat n = (if n < 10 then [digit_char n] else show_nat (n div 10) @ [digit_char (n mod 10)])"

declare show_nat.simps [simp del]


section \<open>Data model\<close>

text \<open>One page of a document after inference (\<open>analyzeMultipleImages\<close> builds these):
  \<open>{page, imagePath, analysis, success: true}\<close> or \<open>{page, imagePath, error, success: false}\<close>.\<close>

record page_analysis =
  page :: nat
  imagePath :: string
  analysis :: "string option"
  error :: "string option"
  success :: bool

text \<open>One entry of \<open>extractedData\<close> (\<open>analyzeDocuments\<close> builds these): what
  \<open>analyzeDocument\<close> returned (\<open>type\<close>, \<open>extractedInfo\<close> and either \<open>pageCount\<close> and
  \<open>pageAnalyses\<close> or \<open>textAnalysis\<close>) or an \<open>error\<close>, with the document's identity.\<close>

record document_analysis =
  documentId :: string
  documentName :: string
  documentType :: string
  error :: "string option"
  extractedInfo :: string
  analysis_type :: "string option"
  pageCount :: "nat option"
  pageAnalyses :: "page_analysis list option"
  textAnalysis :: bool

text \<open>A sub-score of the fallback report is \<open>Math.round(score * c)\<close> for a decimal fraction
  \<open>c\<close> such as 0.85. Such a fraction is not a double and the product is rounded before
  \<open>Math.round\<close> sees it, so exact arithmetic does not give the value the program computes.
  The model records the two operands and does not evaluate the expression.\<close>

datatype rounded_product = RoundedProduct jsnum rat

record detailed_analysis =
  financialHealth :: rounded_product
  cashFlow :: rounded_product
  debtRatio :: rounded_product
  profitability :: rounded_product

record credit_report =
  score :: jsnum
  rating :: string
  summary :: string
  strengths :: "string list"
  riskFactors :: "string list"
  recommendations :: "string list"
  detailedAnalysis :: detailed_analysis

text \<open>The properties an uploaded file and a processed document share (\<open>id\<close>, \<open>originalName\<close>,
  \<open>type\<close>, \<open>mimetype\<close>, \<open>size\<close>), the file reference the analyze request carries and the
  document \<open>processDocument\<close> returns.\<close>

record file_info =
  file_id :: string
  originalName :: string
  doc_type :: string
  mimetype :: string
  file_size :: nat

record uploaded_file = file_info +
  filename :: string

record processed_document = file_info +
  images :: "string list"
  doc_text :: string
  meta_pageCount :: "nat option"


section \<open>The deterministic fallback report (\<open>generateFallbackAnalysis\<close>)\<close>

definition successfulAnalyses :: "document_analysis list \<Rightarrow> nat" where
  "successfulAnalyses extractedData =
     length (filter (\<lambda>doc. \<not> truthy (document_analysis.error doc)) extractedData)"

definition hasFinancialDocs :: "document_analysis list \<Rightarrow> bool" where
  "hasFinancialDocs extractedData =
     list_ex (\<lambda>doc. documentType doc \<in> set [''profit-loss'', ''balance-sheet'', ''bank-statement''])
       extractedData"

definition baseScore :: "document_analysis list \<Rightarrow> jsnum" where
  "baseScore extractedData = (if hasFinancialDocs extractedData then Num 70 else Num 50)"

definition analysisBonus :: "document_analysis list \<Rightarrow> jsnum" where
  "analysisBonus extractedData =
     js_mul (js_div_lengths (successfulAnalyses extractedData) (length extractedData)) (Num 20)"

text \<open>The local \<open>score\<close> of the source: clamped, not yet rounded.\<close>

definition fallback_score :: "document_analysis list \<Rightarrow> jsnum" where
  "fallback_score extractedData =
     Math_min (Num 100) (Math_max (Num 30) (js_add (baseScore extractedData) (analysisBonus extractedData)))"

definition rating_of :: "jsnum \<Rightarrow> string" where
  "rating_of s =
     (if js_ge s (Num 80) then ''Excellent''
      else if js_ge s (Num 70) then ''Good''
      else if js_ge s (Num 60) then ''Fair''
      else ''Poor'')"

definition fallback_summary :: "document_analysis list \<Rightarrow> string" where
  "fallback_summary extractedData =
     ''Based on analysis of '' @ show_nat (length extractedData) @ '' documents ('' @
     show_nat (successfulAnalyses extractedData) @
     '' successfully processed), the credit profile shows '' @
     (if js_ge (fallback_score extractedData) (Num 70) then ''strong''
      else if js_ge (fallback_score extractedData) (Num 60) then ''moderate''
      else ''limited'') @
     '' financial indicators. '' @
     (if hasFinancialDocs extractedData
      then ''Financial statements were provided for comprehensive analysis.''
      else ''Additional financial statements would improve assessment accuracy.'')"

definition generateFallbackAnalysis :: "document_analysis list \<Rightarrow> credit_report" where
  "generateFallbackAnalysis extractedData =
     (let s = fallback_score extractedData; fin = hasFinancialDocs extractedData in
      \<lparr> score = Math_round s,
        rating = rating_of s,
        summary = fallback_summary extractedData,
        strengths =
          [''Complete documentation provided for review'',
           ''Organized approach to financial record keeping'',
           ''Transparent submission of required documents'',
           if fin then ''Comprehensive financial statements included''
           else ''Willingness to provide documentation''],
        riskFactors =
          [''Limited AI analysis due to technical constraints'',
           ''Market volatility and economic uncertainty factors'',
           if \<not> fin then ''Missing key financial statements''
           else ''Need for more detailed financial trend analysis''],
        recommendations =
          [''Maintain consistent and detailed financial reporting'',
           ''Implement regular cash flow monitoring and forecasting'',
           ''Diversify revenue streams to reduce business risk'',
           ''Build emergency reserves covering 3-6 months of expenses'',
           if fin then ''Continue providing comprehensive financial documentation''
           else ''Submit profit & loss statements and balance sheets for better assessment''],
        detailedAnalysis =
          \<lparr> financialHealth = RoundedProduct s (9 / 10),
            cashFlow = RoundedProduct s (8 / 10),
            debtRatio = RoundedProduct s (85 / 100),
            profitability = RoundedProduct s (75 / 100) \<rparr> \<rparr>)"


section \<open>The final report call (\<open>generateCreditAnalysis\<close>)\<close>

text \<open>
  A thrown \<open>Error\<close> is the left injection of a sum, carrying the error's message; a
  \<open>try { body } catch (e) { handler }\<close> block runs the handler on what the body threw.
\<close>

definition try_catch :: "string + 'a \<Rightarrow> (string \<Rightarrow> string + 'a) \<Rightarrow> string + 'a" where
  "try_catch body handler = (case body of Inl e \<Rightarrow> handler e | Inr v \<Rightarrow> Inr v)"

text \<open>What \<open>JSON.parse\<close> returns; an object lists each of its keys once. The parser itself
  belongs to the JavaScript runtime and is a parameter of the model (\<open>None\<close> when it throws
  a \<open>SyntaxError\<close>).\<close>

datatype json =
    JNull
  | JBool bool
  | JNum rat
  | JStr string
  | JArr "json list"
  | JObj "(string \<times> json) list"

text \<open>\<open>v.key\<close>: reading a property of \<open>null\<close> throws a \<open>TypeError\<close>; an object yields the
  property or \<open>undefined\<close>; the other values have no property of the names read here.\<close>

fun js_property :: "json \<Rightarrow> string \<Rightarrow> string + json option" where
  "js_property JNull key = Inl (''Cannot read properties of null (reading '' @ key @ '')'')"
| "js_property (JObj props) key = Inr (map_of props key)"
| "js_property _ key = Inr None"

text \<open>\<open>!!v\<close> for a property that may be absent.\<close>

fun js_truthy :: "json option \<Rightarrow> bool" where
  "js_truthy None = False"
| "js_truthy (Some JNull) = False"
| "js_truthy (Some (JBool b)) = b"
| "js_truthy (Some (JNum x)) = (x \<noteq> 0)"
| "js_truthy (Some (JStr s)) = (s \<noteq> [])"
| "js_truthy (Some (JArr _)) = True"
| "js_truthy (Some (JObj _)) = True"

text \<open>The response of the inference backend's \<open>/api/generate\<close> endpoint as \<open>fetch\<close> delivers
  it: \<open>body_json\<close> is what \<open>response.json()\<close> does (it throws on a body that is not JSON,
  otherwise \<open>data.response\<close> is the generated text, or absent), \<open>body_text\<close> what
  \<open>response.text()\<close> returns. \<open>fetch\<close> itself throws on a network error or a timeout.\<close>

record generate_response =
  ok :: bool
  status :: nat
  statusText :: string
  body_text :: string
  body_json :: "string + string option"

type_synonym fetch_outcome = "string + generate_response"

text \<open>String helpers of the cleaning step. Whitespace is the ASCII part of what
  \<open>String.prototype.trim\<close> and the regular expression class \<open>\s\<close> accept.\<close>

definition is_space :: "char \<Rightarrow> bool" where
  "is_space c = (c \<in> set [CHR '' '', CHR 0x09, CHR 0x0A, CHR 0x0B, CHR 0x0C, CHR 0x0D])"

definition js_trim :: "string \<Rightarrow> string" where
  "js_trim s = rev (dropWhile is_space (rev (dropWhile is_space s)))"

definition startsWith :: "string \<Rightarrow> string \<Rightarrow> bool" where
  "startsWith s p = (take (length p) s = p)"

text \<open>\<open>s.replace(/TAG\s*/, '')\<close>: the leftmost occurrence of the tag goes, with the
  whitespace after it.\<close>

fun replace_fence :: "string \<Rightarrow> string \<Rightarrow> string" where
  "replace_fence tag [] = []"
| "replace_fence tag (c # cs) =
     (if startsWith (c # cs) tag then dropWhile is_space (drop (length tag) (c # cs))
      else c # replace_fence tag cs)"

text \<open>\<open>s.replace(/```\s*$/, '')\<close>: the leftmost fence that only whitespace separates from
  the end of the string goes, with that whitespace.\<close>

fun replace_closing_fence :: "string \<Rightarrow> string" where
  "replace_closing_fence [] = []"
| "replace_closing_fence (c # cs) =
     (if startsWith (c # cs) ''```'' \<and> list_all is_space (drop 3 (c # cs)) then []
      else c # replace_closing_fence cs)"

definition clean_response :: "string \<Rightarrow> string" where
  "clean_response raw =
     (let c0 = js_trim raw;
          c1 = (if startsWith c0 ''```json''
                then replace_closing_fence (replace_fence ''```json'' c0) else c0)
      in if startsWith c1 ''```'' then replace_closing_fence (replace_fence ''```'' c1) else c1)"

text \<open>What \<open>generateCreditAnalysis\<close> returns: the object the model produced, as parsed, or
  the fallback report.\<close>

datatype credit_analysis = ModelReport json | FallbackReport credit_report

text \<open>The inner \<open>try\<close> block: clean, parse, validate.\<close>

definition parse_analysis :: "(string \<Rightarrow> json option) \<Rightarrow> string option \<Rightarrow> string + json" where
  "parse_analysis JSON_parse response =
     (case response of
        None \<Rightarrow> Inl ''Cannot read properties of undefined (reading 'trim')''
      | Some raw \<Rightarrow>
          (case JSON_parse (clean_response raw) of
             None \<Rightarrow> Inl ''Unexpected token in JSON''
           | Some analysisResult \<Rightarrow>
               (case js_property analysisResult ''score'' of
                  Inl e \<Rightarrow> Inl e
                | Inr sc \<Rightarrow>
                    if \<not> js_truthy sc then Inl ''Invalid analysis structure''
                    else (case js_property analysisResult ''rating'' of
                            Inl e \<Rightarrow> Inl e
                          | Inr ra \<Rightarrow>
                              if \<not> js_truthy ra then Inl ''Invalid analysis structure''
                              else (case js_property analysisResult ''summary'' of
                                      Inl e \<Rightarrow> Inl e
                                    | Inr su \<Rightarrow>
                                        if \<not> js_truthy su then Inl ''Invalid analysis structure''
                                        else Inr analysisResult)))))"

definition generateCreditAnalysis ::
  "(string \<Rightarrow> json option) \<Rightarrow> fetch_outcome \<Rightarrow> document_analysis list \<Rightarrow> string + credit_analysis"
where
  "generateCreditAnalysis JSON_parse fetched extractedData =
     try_catch
       (case fetched of
          Inl e \<Rightarrow> Inl e
        | Inr response \<Rightarrow>
            if \<not> ok response
            then Inl (''Ollama API error: '' @ show_nat (status response) @ '' '' @ statusText response)
            else (case body_json response of
                    Inl e \<Rightarrow> Inl e
                  | Inr data_response \<Rightarrow>
                      try_catch
                        (case parse_analysis JSON_parse data_response of
                           Inl e \<Rightarrow> Inl e
                         | Inr analysisResult \<Rightarrow> Inr (ModelReport analysisResult))
                        (\<lambda>parseError. Inr (FallbackReport (generateFallbackAnalysis extractedData)))))
       (\<lambda>err. Inr (FallbackReport (generateFallbackAnalysis extractedData)))"


section \<open>Request state and the outside world\<close>

text \<open>What \<open>analyzeDocuments\<close> returns: the credit analysis spread into an object with the
  per-document results and the batch metadata (the timestamp is left out).\<close>

record analysis_result =
  creditAnalysis :: credit_analysis
  documentAnalysis :: "document_analysis list"
  totalDocuments :: nat
  documentTypes :: "string list"

text \<open>The events written to the response stream: \<open>{step, progress, message}\<close>, the final
  \<open>{step: 'result', progress: 100, result}\<close> and \<open>{step: 'error', progress: 0, error}\<close>.\<close>

datatype sse_event =
    Progress string rat string
  | ResultEvent analysis_result
  | ErrorEvent string

fun event_progress :: "sse_event \<Rightarrow> rat" where
  "event_progress (Progress step progress message) = progress"
| "event_progress (ResultEvent result) = 100"
| "event_progress (ErrorEvent err) = 0"

text \<open>What the gateway does towards the inference backend, in order: one entry for every
  run of the body of \<open>analyzeImage\<close> (image path and prompt), one for every wait (in
  milliseconds).\<close>

datatype gateway_event = Attempt string string | Delay nat

text \<open>The effects of one request, threaded through every operation: the number of inference
  attempts made so far, the gateway's trace, the passwords tried on encrypted PDFs, the files
  written (path and content) and the events sent on the stream.\<close>

record state =
  requests :: nat
  trace :: "gateway_event list"
  probes :: "string list"
  written :: "(string \<times> string) list"
  events :: "sse_event list"

text \<open>One run of the body of \<open>analyzeImage\<close> meets one of these: the image is not on disk,
  reading it throws, or the request is sent and \<open>fetch\<close> throws or delivers a response.\<close>

datatype attempt_outcome = FileMissing | ReadFails string | Fetched fetch_outcome

text \<open>One password probe of \<open>handleEncryptedPDF\<close>: reading the file, loading it with the
  password, saving the document or writing the copy throws, or all four succeed and the
  decrypted bytes are written.\<close>

datatype probe_outcome =
    ProbeReadFails
  | ProbeLoadFails
  | ProbeSaveFails
  | ProbeWriteFails
  | Decrypted string

text \<open>What the file system does around one password probe: reading the file throws, saving
  the loaded document throws, writing the copy throws, or the copy is written with these
  bytes.\<close>

datatype probe_io = ReadThrows | SaveThrows | WriteThrows | Written string

text \<open>The file system and the PDF libraries, for one stored file: whether the path exists,
  whether \<open>fs.readFile\<close> throws (with which message), the password the stored PDF is
  encrypted with (\<open>None\<close> for a PDF that is not encrypted), the error of the PDF parser on a
  file that is not a PDF, what the file system does around each password probe, what the
  conversion of a PDF (by path) to page images returns, and what \<open>fs.stat\<close> reports as
  size.\<close>

record file_world =
  pathExists :: bool
  readFile_error :: "string option"
  pdf_password :: "string option"
  pdf_parse_error :: "string option"
  probe_io :: "string \<Rightarrow> probe_io"
  pdf_convert :: "string \<Rightarrow> string + string list"
  stat_size :: "string + nat"

text \<open>The configuration and everything outside the process: the directories, the backend's
  URL, whether the connectivity check of the request succeeds, the files by path, whether the
  model is installed, the error of \<open>pullModel\<close> if it fails, the outcome of the k-th inference
  attempt (by image path and prompt), the outcome of the report request and \<open>JSON.parse\<close>.\<close>

record world =
  uploadsDir :: string
  tempDir :: string
  baseUrl :: string
  connection_ok :: bool
  file_env :: "string \<Rightarrow> file_world"
  modelAvailable :: bool
  pullModel_error :: "string option"
  image_inference :: "nat \<Rightarrow> string \<Rightarrow> string \<Rightarrow> attempt_outcome"
  report_fetch :: fetch_outcome
  JSON_parse :: "string \<Rightarrow> json option"


section \<open>Model Gateway: inference on images\<close>

definition maxRetries :: nat where
  "maxRetries = 3"

definition retryDelay :: nat where
  "retryDelay = 2000"

text \<open>The body of the \<open>try\<close> block of \<open>analyzeImage\<close>: the generated text, or the error
  thrown.\<close>

definition attempt_result :: "string \<Rightarrow> attempt_outcome \<Rightarrow> string + string" where
  "attempt_result imgPath outcome =
     (case outcome of
        FileMissing \<Rightarrow> Inl (''Image file not found: '' @ imgPath)
      | ReadFails e \<Rightarrow> Inl e
      | Fetched (Inl e) \<Rightarrow> Inl e
      | Fetched (Inr response) \<Rightarrow>
          if \<not> ok response
          then Inl (''Ollama API error: '' @ show_nat (status response) @ '' '' @
                    statusText response @ '' - '' @ body_text response)
          else (case body_json response of
                  Inl e \<Rightarrow> Inl e
                | Inr None \<Rightarrow> Inl ''Empty response from Ollama''
                | Inr (Some generated) \<Rightarrow>
                    if generated = [] then Inl ''Empty response from Ollama''
                    else Inr generated))"

function analyzeImage ::
  "(nat \<Rightarrow> string \<Rightarrow> string \<Rightarrow> attempt_outcome) \<Rightarrow> string \<Rightarrow> string \<Rightarrow> nat \<Rightarrow> state
     \<Rightarrow> (string + string) \<times> state"
where
  "analyzeImage infer imgPath prompt retryCount st =
     (let st1 = st\<lparr>requests := requests st + 1, trace := trace st @ [Attempt imgPath prompt]\<rparr> in
      case attempt_result imgPath (infer (requests st) imgPath prompt) of
        Inr generated \<Rightarrow> (Inr generated, st1)
      | Inl e \<Rightarrow>
          if retryCount < maxRetries
          then analyzeImage infer imgPath prompt (retryCount + 1)
                 (st1\<lparr>trace := trace st1 @ [Delay retryDelay]\<rparr>)
          else (Inl (''Failed to analyze image after '' @ show_nat (maxRetries + 1) @
                     '' attempts: '' @ e), st1))"
  by pat_completeness auto
termination
  by (relation "measure (\<lambda>(infer, imgPath, prompt, retryCount, st). maxRetries - retryCount)") auto

declare analyzeImage.simps [simp del]

definition page_prompt :: "string \<Rightarrow> nat \<Rightarrow> nat \<Rightarrow> string" where
  "page_prompt prompt pageNo pageTotal =
     prompt @ ''\<newline>\<newline>This is page '' @ show_nat pageNo @ '' of '' @ show_nat pageTotal @
     ''. Please analyze this page and extract relevant financial information. Be specific and detailed in your analysis.''"

text \<open>The loop of \<open>analyzeMultipleImages\<close>, from index \<open>i\<close> with the results so far.\<close>

function analyzeMultipleImages_from ::
  "(nat \<Rightarrow> string \<Rightarrow> string \<Rightarrow> attempt_outcome) \<Rightarrow> string list \<Rightarrow> string \<Rightarrow> nat
     \<Rightarrow> page_analysis list \<Rightarrow> state \<Rightarrow> page_analysis list \<times> state"
where
  "analyzeMultipleImages_from infer imagePaths prompt i results st =
     (if i < length imagePaths
      then (let imgPath = imagePaths ! i;
                pagePrompt = page_prompt prompt (i + 1) (length imagePaths);
                attempt = analyzeImage infer imgPath pagePrompt 0 st
            in analyzeMultipleImages_from infer imagePaths prompt (i + 1)
                 (results @
                    [case fst attempt of
                       Inr generated \<Rightarrow>
                         \<lparr> page = i + 1, imagePath = imgPath, analysis = Some generated,
                           error = None, success = True \<rparr>
                     | Inl message \<Rightarrow>
                         \<lparr> page = i + 1, imagePath = imgPath, analysis = None,
                           error = Some message, success = False \<rparr>])
                 (snd attempt))
      else (results, st))"
  by pat_completeness auto
termination
  by (relation "measure (\<lambda>(infer, imagePaths, prompt, i, results, st). length imagePaths - i)") auto

declare analyzeMultipleImages_from.simps [simp del]

definition analyzeMultipleImages ::
  "(nat \<Rightarrow> string \<Rightarrow> string \<Rightarrow> attempt_outcome) \<Rightarrow> string list \<Rightarrow> string \<Rightarrow> state
     \<Rightarrow> page_analysis list \<times> state"
where
  "analyzeMultipleImages infer imagePaths prompt st =
     analyzeMultipleImages_from infer imagePaths prompt 0 [] st"


section \<open>Document Analyzer\<close>

definition basePrompt :: string where
  "basePrompt = ''Analyze this financial document and extract key information. Focus on:''"

definition getDocumentPrompt :: "string \<Rightarrow> string" where
  "getDocumentPrompt documentType' =
     (if documentType' = ''legal'' then
        basePrompt @ ''\<newline>- Company name and legal structure\<newline>- Business registration details\<newline>- Legal compliance status\<newline>- Any legal issues or pending litigation\<newline>- Ownership structure\<newline>- Business licenses and permits''
      else if documentType' = ''profit-loss'' then
        basePrompt @ ''\<newline>- Revenue figures and trends\<newline>- Operating expenses breakdown\<newline>- Net profit/loss amounts\<newline>- Gross margin calculations\<newline>- Operating margin\<newline>- Period covered\<newline>- Year-over-year comparisons\<newline>- Key financial ratios''
      else if documentType' = ''balance-sheet'' then
        basePrompt @ ''\<newline>- Total assets and breakdown\<newline>- Current assets vs fixed assets\<newline>- Total liabilities and breakdown\<newline>- Current liabilities vs long-term debt\<newline>- Shareholders' equity\<newline>- Working capital\<newline>- Debt-to-equity ratio\<newline>- Asset turnover ratios''
      else if documentType' = ''bank-statement'' then
        basePrompt @ ''\<newline>- Account balance trends\<newline>- Cash flow patterns\<newline>- Regular income sources\<newline>- Major expenses and payments\<newline>- Overdrafts or negative balances\<newline>- Transaction frequency\<newline>- Average monthly balance\<newline>- Seasonal variations''
      else
        basePrompt @ ''\<newline>- Document type and purpose\<newline>- Key financial figures\<newline>- Important dates and periods\<newline>- Relevant business information\<newline>- Any red flags or concerns\<newline>- Positive indicators'')"

text \<open>\<open>array.join(separator)\<close> on strings.\<close>

fun js_join :: "string \<Rightarrow> string list \<Rightarrow> string" where
  "js_join separator [] = []"
| "js_join separator [x] = x"
| "js_join separator (x # y # rest) = x @ separator @ js_join separator (y # rest)"

text \<open>An optional string in a template literal: \<open>undefined\<close> prints as that word.\<close>

fun show_optional :: "string option \<Rightarrow> string" where
  "show_optional None = ''undefined''"
| "show_optional (Some s) = s"

definition page_label :: "page_analysis \<Rightarrow> string" where
  "page_label a = ''Page '' @ show_nat (page a) @ '': '' @ show_optional (analysis a)"

definition combinePageAnalyses :: "page_analysis list \<Rightarrow> string" where
  "combinePageAnalyses pageAnalyses' =
     (let validAnalyses = filter (\<lambda>a. \<not> truthy (page_analysis.error a)) pageAnalyses' in
      if length validAnalyses = 0 then ''Failed to extract information from document pages''
      else js_join ''\<newline>\<newline>'' (map page_label validAnalyses))"

text \<open>The two objects \<open>analyzeDocument\<close> returns: for a document with page images
  \<open>{type, pageCount, extractedInfo, pageAnalyses}\<close>, otherwise
  \<open>{type, extractedInfo, textAnalysis: true}\<close>.\<close>

datatype document_content =
    PagesContent string nat string "page_analysis list"
  | TextContent string string

definition analyzeDocument ::
  "(nat \<Rightarrow> string \<Rightarrow> string \<Rightarrow> attempt_outcome) \<Rightarrow> processed_document \<Rightarrow> state
     \<Rightarrow> (string + document_content) \<times> state"
where
  "analyzeDocument infer document st =
     (let prompt = getDocumentPrompt (doc_type document) in
      if length (images document) > 0
      then (let batch = analyzeMultipleImages infer (images document) prompt st;
                imageAnalyses = fst batch;
                combinedAnalysis = combinePageAnalyses imageAnalyses
            in (Inr (PagesContent (doc_type document) (length (images document))
                       combinedAnalysis imageAnalyses), snd batch))
      else (Inr (TextContent (doc_type document)
                   (if doc_text document \<noteq> [] then doc_text document
                    else ''No content extracted'')), st))"

text \<open>\<open>sendProgress\<close> of the request handler, which is also the \<open>progressCallback\<close> of
  \<open>analyzeDocuments\<close>.\<close>

definition sendProgress :: "string \<Rightarrow> rat \<Rightarrow> string \<Rightarrow> state \<Rightarrow> state" where
  "sendProgress step progress message st = st\<lparr>events := events st @ [Progress step progress message]\<rparr>"

text \<open>The entry pushed to \<open>extractedData\<close> for one document.\<close>

definition extracted_entry :: "processed_document \<Rightarrow> string + document_content \<Rightarrow> document_analysis" where
  "extracted_entry doc outcome =
     (case outcome of
        Inr (PagesContent ty n info pages) \<Rightarrow>
          \<lparr> documentId = file_id doc, documentName = originalName doc, documentType = doc_type doc,
            error = None, extractedInfo = info, analysis_type = Some ty, pageCount = Some n,
            pageAnalyses = Some pages, textAnalysis = False \<rparr>
      | Inr (TextContent ty info) \<Rightarrow>
          \<lparr> documentId = file_id doc, documentName = originalName doc, documentType = doc_type doc,
            error = None, extractedInfo = info, analysis_type = Some ty, pageCount = None,
            pageAnalyses = None, textAnalysis = True \<rparr>
      | Inl message \<Rightarrow>
          \<lparr> documentId = file_id doc, documentName = originalName doc, documentType = doc_type doc,
            error = Some message, extractedInfo = ''Failed to analyze document'',
            analysis_type = None, pageCount = None, pageAnalyses = None, textAnalysis = False \<rparr>)"

text \<open>The loop of \<open>analyzeDocuments\<close> over the documents left, \<open>docIndex\<close> counting the ones
  done and \<open>n\<close> the length of the whole list.\<close>

fun extract_documents ::
  "world \<Rightarrow> nat \<Rightarrow> nat \<Rightarrow> processed_document list \<Rightarrow> document_analysis list \<Rightarrow> state
     \<Rightarrow> document_analysis list \<times> state"
where
  "extract_documents w n docIndex [] extractedData st = (extractedData, st)"
| "extract_documents w n docIndex (doc # rest) extractedData st =
     (let progressBase = 80 + (of_nat (docIndex + 1) / of_nat n) * 15;
          st1 = sendProgress ''analysis'' progressBase (''Analyzing '' @ originalName doc @ ''...'') st;
          outcome = analyzeDocument (image_inference w) doc st1
      in extract_documents w n (docIndex + 1) rest
           (extractedData @ [extracted_entry doc (fst outcome)]) (snd outcome))"

definition model_name :: string where
  "model_name = ''qwen2.5vl:7b''"

definition analyzeDocuments ::
  "world \<Rightarrow> processed_document list \<Rightarrow> state \<Rightarrow> (string + analysis_result) \<times> state"
where
  "analyzeDocuments w processedDocuments st =
     (let st1 = (if modelAvailable w then st
                 else sendProgress ''analysis'' 75
                        ''Downloading AI model (this may take a few minutes)...'' st);
          pulled = (if modelAvailable w then None else pullModel_error w)
      in case pulled of
           Some e \<Rightarrow>
             (Inl (''Failed to complete credit analysis: '' @
                   ''Failed to pull model '' @ model_name @ '': '' @ e), st1)
         | None \<Rightarrow>
             (let st2 = sendProgress ''analysis'' 80 ''Extracting financial data from documents...'' st1;
                  extraction = extract_documents w (length processedDocuments) 0 processedDocuments [] st2;
                  extractedData = fst extraction;
                  st3 = sendProgress ''analysis'' 95 ''Generating credit recommendation...'' (snd extraction);
                  documentTypes' = map doc_type processedDocuments
              in case generateCreditAnalysis (JSON_parse w) (report_fetch w) extractedData of
                   Inl e \<Rightarrow> (Inl (''Failed to complete credit analysis: '' @ e), st3)
                 | Inr creditAnalysis' \<Rightarrow>
                     (Inr \<lparr> creditAnalysis = creditAnalysis', documentAnalysis = extractedData,
                            totalDocuments = length processedDocuments,
                            documentTypes = documentTypes' \<rparr>, st3)))"


section \<open>Document Normalizer\<close>

text \<open>\<open>path.join\<close> of a directory and a file name, and \<open>path.basename\<close>, on paths that need
  no normalisation.\<close>

definition path_join :: "string \<Rightarrow> string \<Rightarrow> string" where
  "path_join dir name = dir @ ''/'' @ name"

definition basename :: "string \<Rightarrow> string" where
  "basename p = rev (takeWhile (\<lambda>c. c \<noteq> CHR ''/'') (rev p))"

text \<open>\<open>s.includes(sub)\<close>.\<close>

fun js_includes :: "string \<Rightarrow> string \<Rightarrow> bool" where
  "js_includes [] sub = (sub = [])"
| "js_includes (c # cs) sub = (startsWith (c # cs) sub \<or> js_includes cs sub)"

text \<open>\<open>PDFDocument.load\<close> of the package pdf-lib, as the source calls it. The package is
  not part of the repository; the model follows its documentation: the options of \<open>load\<close>
  are \<open>ignoreEncryption\<close>, \<open>parseSpeed\<close>, \<open>throwOnInvalidObject\<close>, \<open>updateMetadata\<close> and
  \<open>capNumbers\<close>, a \<open>password\<close> property is not read, and an encrypted document, with
  whatever password it is encrypted, makes \<open>load\<close> throw its \<open>EncryptedPDFError\<close> unless
  \<open>ignoreEncryption\<close> is set. So the call with \<open>{ password }\<close> does what the call without
  options does.\<close>

definition encrypted_message :: string where
  "encrypted_message =
     ''Input document to `PDFDocument.load` is encrypted. You can use `PDFDocument.load(..., { ignoreEncryption: true })` if you wish to load the document anyways.''"

definition PDFDocument_load :: "file_world \<Rightarrow> string + unit" where
  "PDFDocument_load fw =
     (case pdf_parse_error fw of
        Some e \<Rightarrow> Inl e
      | None \<Rightarrow>
          (case pdf_password fw of
             Some stored_password \<Rightarrow> Inl encrypted_message
           | None \<Rightarrow> Inr ()))"

text \<open>The body of the \<open>try\<close> block of one probe: read the file, load it with the password
  option, save the document, write the copy.\<close>

definition probe_result :: "file_world \<Rightarrow> string \<Rightarrow> probe_outcome" where
  "probe_result fw password =
     (case probe_io fw password of
        ReadThrows \<Rightarrow> ProbeReadFails
      | SaveThrows \<Rightarrow>
          (case PDFDocument_load fw of Inl e \<Rightarrow> ProbeLoadFails | Inr u \<Rightarrow> ProbeSaveFails)
      | WriteThrows \<Rightarrow>
          (case PDFDocument_load fw of Inl e \<Rightarrow> ProbeLoadFails | Inr u \<Rightarrow> ProbeWriteFails)
      | Written unencryptedPdfBytes \<Rightarrow>
          (case PDFDocument_load fw of
             Inl e \<Rightarrow> ProbeLoadFails
           | Inr u \<Rightarrow> Decrypted unencryptedPdfBytes))"

definition commonPasswords :: "string list" where
  "commonPasswords = ['''', ''password'', ''123456'', ''admin'', ''user'']"

text \<open>The loop of \<open>handleEncryptedPDF\<close> over the passwords left: every probe is recorded; the
  first one that goes through writes the decrypted copy and returns its path; a probe that
  throws moves on to the next password; after the last one the error is thrown.\<close>

fun probe_passwords ::
  "(string \<Rightarrow> probe_outcome) \<Rightarrow> string \<Rightarrow> string list \<Rightarrow> state \<Rightarrow> (string + string) \<times> state"
where
  "probe_passwords probe' unencryptedPath [] st =
     (Inl ''Could not decrypt PDF - password protected'', st)"
| "probe_passwords probe' unencryptedPath (password # rest) st =
     (let st1 = st\<lparr>probes := probes st @ [password]\<rparr> in
      case probe' password of
        Decrypted unencryptedPdfBytes \<Rightarrow>
          (Inr unencryptedPath,
           st1\<lparr>written := written st1 @ [(unencryptedPath, unencryptedPdfBytes)]\<rparr>)
      | _ \<Rightarrow> probe_passwords probe' unencryptedPath rest st1)"

definition handleEncryptedPDF ::
  "file_world \<Rightarrow> string \<Rightarrow> string \<Rightarrow> state \<Rightarrow> (string + string) \<times> state"
where
  "handleEncryptedPDF fw tempDir' documentId' st =
     probe_passwords (probe_result fw) (path_join tempDir' (documentId' @ ''_unencrypted.pdf''))
       commonPasswords st"

definition processPDF ::
  "file_world \<Rightarrow> string \<Rightarrow> string \<Rightarrow> string \<Rightarrow> state \<Rightarrow> (string + string list) \<times> state"
where
  "processPDF fw tempDir' filePath documentId' st =
     (let attempt =
        (case readFile_error fw of
           Some e \<Rightarrow> (Inl e, st)
         | None \<Rightarrow>
             (let opened =
                (case PDFDocument_load fw of
                   Inr pdfDoc \<Rightarrow> (Inr filePath, st)
                 | Inl message \<Rightarrow>
                     if js_includes message ''encrypted'' \<or> js_includes message ''password''
                     then handleEncryptedPDF fw tempDir' documentId' st
                     else (Inl message, st))
              in case fst opened of
                   Inl e \<Rightarrow> (Inl e, snd opened)
                 | Inr processedPdfPath \<Rightarrow> (pdf_convert fw processedPdfPath, snd opened)))
      in case fst attempt of
           Inl e \<Rightarrow> (Inl (''Failed to process PDF: '' @ e), snd attempt)
         | Inr imagePaths \<Rightarrow> (Inr imagePaths, snd attempt))"

definition extractTextFromFile :: "file_world \<Rightarrow> string \<Rightarrow> string \<Rightarrow> string + string" where
  "extractTextFromFile fw filePath mimetype' =
     (case stat_size fw of
        Inl e \<Rightarrow> Inl e
      | Inr bytes \<Rightarrow>
          Inr (''File: '' @ basename filePath @ '', Size: '' @ show_nat bytes @ '' bytes, Type: '' @
               mimetype'))"

definition processDocument ::
  "file_world \<Rightarrow> string \<Rightarrow> string \<Rightarrow> uploaded_file \<Rightarrow> state
     \<Rightarrow> (string + processed_document) \<times> state"
where
  "processDocument fw tempDir' filePath fileInfo st =
     (let attempt =
        (if mimetype fileInfo = ''application/pdf''
         then (let converted = processPDF fw tempDir' filePath (file_id fileInfo) st in
               case fst converted of
                 Inl e \<Rightarrow> (Inl e, snd converted)
               | Inr imagePaths \<Rightarrow>
                   (Inr \<lparr> file_id = file_id fileInfo, originalName = originalName fileInfo,
                          doc_type = doc_type fileInfo, mimetype = mimetype fileInfo,
                          file_size = file_size fileInfo, images = imagePaths, doc_text = [],
                          meta_pageCount = Some (length imagePaths) \<rparr>, snd converted))
         else (case extractTextFromFile fw filePath (mimetype fileInfo) of
                 Inl e \<Rightarrow> (Inl e, st)
               | Inr described \<Rightarrow>
                   (Inr \<lparr> file_id = file_id fileInfo, originalName = originalName fileInfo,
                          doc_type = doc_type fileInfo, mimetype = mimetype fileInfo,
                          file_size = file_size fileInfo, images = [], doc_text = described,
                          meta_pageCount = None \<rparr>, st)))
      in case fst attempt of
           Inl e \<Rightarrow> (Inl (''Failed to process '' @ originalName fileInfo @ '': '' @ e), snd attempt)
         | Inr result \<Rightarrow> (Inr result, snd attempt))"


section \<open>The analyze request\<close>

text \<open>The loop of the handler over the files left: \<open>fileIndex\<close> counts the files already
  taken, \<open>n\<close> is the length of the whole list (not zero: the handler answers an empty list
  with status 400 before it opens the stream).\<close>

fun process_files ::
  "world \<Rightarrow> nat \<Rightarrow> nat \<Rightarrow> uploaded_file list \<Rightarrow> processed_document list \<Rightarrow> state
     \<Rightarrow> processed_document list \<times> state"
where
  "process_files w n fileIndex [] processedDocuments st = (processedDocuments, st)"
| "process_files w n fileIndex (file # rest) processedDocuments st =
     (let progressBase = of_nat fileIndex / of_nat n * 60;
          st1 = sendProgress ''processing'' (progressBase + 5)
                  (''Processing '' @ originalName file @ ''...'') st;
          filePath = path_join (uploadsDir w) (filename file)
      in if \<not> pathExists (file_env w filePath)
         then process_files w n (fileIndex + 1) rest processedDocuments
                (sendProgress ''processing'' (progressBase + 60 / of_nat n)
                   (''File not found: '' @ originalName file) st1)
         else (let attempt = processDocument (file_env w filePath) (tempDir w) filePath file st1 in
               case fst attempt of
                 Inr processed \<Rightarrow>
                   process_files w n (fileIndex + 1) rest (processedDocuments @ [processed])
                     (sendProgress ''processing'' (progressBase + 60 / of_nat n)
                        (''Completed processing '' @ originalName file) (snd attempt))
               | Inl message \<Rightarrow>
                   process_files w n (fileIndex + 1) rest processedDocuments
                     (sendProgress ''processing'' (progressBase + 60 / of_nat n)
                        (''Error processing '' @ originalName file @ '': '' @ message)
                        (snd attempt))))"

text \<open>The body of the inner \<open>try\<close> block of the handler: what it throws, or the analysis.\<close>

definition run_analysis ::
  "world \<Rightarrow> uploaded_file list \<Rightarrow> state \<Rightarrow> (string + analysis_result) \<times> state"
where
  "run_analysis w files st =
     (let st1 = sendProgress ''initialization'' 5 ''Checking AI service connection...'' st in
      if \<not> connection_ok w
      then (Inl (''Cannot connect to Ollama at '' @ baseUrl w @
                 ''. Please ensure Ollama is running and accessible.''), st1)
      else (let st2 = sendProgress ''processing'' 10 ''Starting document processing...'' st1;
                processing = process_files w (length files) 0 files [] st2;
                processedDocuments = fst processing
            in if length processedDocuments = 0
               then (Inl ''No documents could be processed successfully'', snd processing)
               else (let st3 = sendProgress ''analysis'' 70 ''Analyzing documents with AI...''
                                 (snd processing);
                         analysed = analyzeDocuments w processedDocuments st3
                     in case fst analysed of
                          Inl e \<Rightarrow> (Inl e, snd analysed)
                        | Inr analysis' \<Rightarrow>
                            (Inr analysis',
                             sendProgress ''complete'' 100 ''Analysis complete!'' (snd analysed)))))"

text \<open>The handler of \<open>POST /api/analyze\<close>: status 400 for an empty list of files, otherwise
  the stream, closed by the result event or by the error event. The removal of the files,
  which a timer starts five seconds after the result, is not modelled.\<close>

datatype reply = BadRequest | EventStream

definition analyze_request :: "world \<Rightarrow> uploaded_file list \<Rightarrow> state \<Rightarrow> reply \<times> state" where
  "analyze_request w files st =
     (if length files = 0 then (BadRequest, st)
      else (let run = run_analysis w files st in
            case fst run of
              Inr analysis' \<Rightarrow>
                (EventStream, (snd run)\<lparr>events := events (snd run) @ [ResultEvent analysis']\<rparr>)
            | Inl message \<Rightarrow>
                (EventStream, (snd run)\<lparr>events := events (snd run) @ [ErrorEvent message]\<rparr>)))"


section \<open>The specification's formulas\<close>

text \<open>The fallback score as the specification writes it: a base of 70 when a document of
  a core financial-statement type is present and of 50 otherwise, a bonus of twenty times the
  share of documents analysed without an error, the sum clamped to 30..100 and rounded.
  A document counts as analysed without an error when the test \<open>!doc.error\<close> of the source
  holds: its \<open>error\<close> property is absent or the empty string.\<close>

definition spec_baseScore :: "document_analysis list \<Rightarrow> rat" where
  "spec_baseScore docs =
     (if \<exists>doc \<in> set docs. documentType doc = ''profit-loss'' \<or> documentType doc = ''balance-sheet''
           \<or> documentType doc = ''bank-statement''
      then 70 else 50)"

definition spec_bonus :: "document_analysis list \<Rightarrow> rat" where
  "spec_bonus docs =
     of_nat (length (filter (\<lambda>doc. document_analysis.error doc = None
                                \<or> document_analysis.error doc = Some []) docs))
       / of_nat (length docs) * 20"

definition spec_fallback_score :: "document_analysis list \<Rightarrow> int" where
  "spec_fallback_score docs = round (max 30 (min 100 (spec_baseScore docs + spec_bonus docs)))"

text \<open>The rating that the thresholds 80, 70 and 60 assign to a score.\<close>

definition rating_consistent :: "rat \<Rightarrow> string \<Rightarrow> bool" where
  "rating_consistent sc r =
     ((r = ''Excellent'') = (80 \<le> sc) \<and> (r = ''Good'') = (70 \<le> sc \<and> sc < 80) \<and>
      (r = ''Fair'') = (60 \<le> sc \<and> sc < 70) \<and> (r = ''Poor'') = (sc < 60))"

text \<open>A document entry for examples: its declared type and its \<open>error\<close> property.\<close>

definition example_entry :: "string \<Rightarrow> string option \<Rightarrow> document_analysis" where
  "example_entry ty err =
     \<lparr> documentId = ''doc'', documentName = ''statement.pdf'', documentType = ty, error = err,
       extractedInfo = [], analysis_type = None, pageCount = None, pageAnalyses = None,
       textAnalysis = False \<rparr>"


text \<open>The value of a property of a parsed report, \<open>undefined\<close> (here \<open>None\<close>) where the
  parsed value is not an object or has no such property.\<close>

definition js_field :: "json \<Rightarrow> string \<Rightarrow> json option" where
  "js_field j key = (case j of JObj props \<Rightarrow> map_of props key | _ \<Rightarrow> None)"

text \<open>The failures of the report call that the specification lists: a network error, a
  status that is not OK, a response body or a generated text that does not parse as JSON
  (or no generated text at all), and a parsed report that lacks a score, a rating or a
  summary.\<close>

definition report_call_failed :: "(string \<Rightarrow> json option) \<Rightarrow> fetch_outcome \<Rightarrow> bool" where
  "report_call_failed parse fetched =
     (case fetched of
        Inl e \<Rightarrow> True
      | Inr response \<Rightarrow>
          \<not> ok response \<or>
          (case body_json response of
             Inl e \<Rightarrow> True
           | Inr None \<Rightarrow> True
           | Inr (Some raw) \<Rightarrow>
               (case parse (clean_response raw) of
                  None \<Rightarrow> True
                | Some j \<Rightarrow>
                    \<not> js_truthy (js_field j ''score'') \<or> \<not> js_truthy (js_field j ''rating'')
                    \<or> \<not> js_truthy (js_field j ''summary''))))"

text \<open>Examples: an OK response of the backend with a generated text; the object a model
  may answer, fenced as Markdown, and a parser that knows this one text (with the
  whitespace \<open>JSON.parse\<close> skips).\<close>

definition example_response :: "string \<Rightarrow> generate_response" where
  "example_response generated =
     \<lparr> ok = True, status = 200, statusText = ''OK'', body_text = [],
       body_json = Inr (Some generated) \<rparr>"

definition example_json_text :: string where
  \<open>example_json_text = ''{"score": 75, "rating": "Poor", "summary": "Stable."}''\<close>

definition example_object :: json where
  "example_object =
     JObj [(''score'', JNum 75), (''rating'', JStr ''Poor''), (''summary'', JStr ''Stable.'')]"

definition example_parse :: "string \<Rightarrow> json option" where
  "example_parse s = (if js_trim s = example_json_text then Some example_object else None)"

definition example_fenced_text :: string where
  "example_fenced_text = ''```json\<newline>'' @ example_json_text @ ''\<newline>```''"


text \<open>The gateway's trace of \<open>k\<close> attempts on one image: the attempts, with one wait of
  \<open>retryDelay\<close> milliseconds between two consecutive ones.\<close>

fun attempts_trace :: "string \<Rightarrow> string \<Rightarrow> nat \<Rightarrow> gateway_event list" where
  "attempts_trace imgPath prompt 0 = []"
| "attempts_trace imgPath prompt (Suc 0) = [Attempt imgPath prompt]"
| "attempts_trace imgPath prompt (Suc (Suc k)) =
     Attempt imgPath prompt # Delay retryDelay # attempts_trace imgPath prompt (Suc k)"

text \<open>The suffix that tells the model which page of how many it is looking at.\<close>

definition spec_page_suffix :: "nat \<Rightarrow> nat \<Rightarrow> string" where
  "spec_page_suffix pageNo pageTotal =
     ''\<newline>\<newline>This is page '' @ show_nat pageNo @ '' of '' @ show_nat pageTotal @
     ''. Please analyze this page and extract relevant financial information. Be specific and detailed in your analysis.''"

text \<open>The trace of a batch from page index \<open>i\<close> on: page after page, each with its own
  number of attempts and with its page suffix on the prompt.\<close>

definition batch_trace :: "string list \<Rightarrow> string \<Rightarrow> nat \<Rightarrow> nat list \<Rightarrow> gateway_event list" where
  "batch_trace imagePaths prompt i ks =
     concat (map (\<lambda>(j, k). attempts_trace (imagePaths ! j)
                              (prompt @ spec_page_suffix (j + 1) (length imagePaths)) k)
               (zip [i..<length imagePaths] ks))"

text \<open>The labelled narratives of the pages that did not fail, in the order of the list.\<close>

fun spec_labels :: "page_analysis list \<Rightarrow> string list" where
  "spec_labels [] = []"
| "spec_labels (a # rest) =
     (if truthy (page_analysis.error a) then spec_labels rest
      else (''Page '' @ show_nat (page a) @ '': '' @ show_optional (analysis a)) # spec_labels rest)"

text \<open>The state at the start of a request.\<close>

definition initial_state :: state where
  "initial_state = \<lparr> requests = 0, trace = [], probes = [], written = [], events = [] \<rparr>"

text \<open>An example of the backend: one that never finds the image.\<close>

definition never_found :: "nat \<Rightarrow> string \<Rightarrow> string \<Rightarrow> attempt_outcome" where
  "never_found k imgPath prompt = FileMissing"

text \<open>A page result carries a narrative or an error message, never both: a successful one
  a non-empty narrative and no error, a failed one a non-empty error message and no
  narrative.\<close>

definition narrative_xor_error :: "page_analysis \<Rightarrow> bool" where
  "narrative_xor_error r =
     (if success r then truthy (analysis r) \<and> page_analysis.error r = None
      else analysis r = None \<and> truthy (page_analysis.error r))"


text \<open>The object \<open>analyzeMultipleImages\<close> pushes for the page at index \<open>i\<close>.\<close>

definition page_entry :: "nat \<Rightarrow> string \<Rightarrow> string + string \<Rightarrow> page_analysis" where
  "page_entry i imgPath outcome =
     (case outcome of
        Inr generated \<Rightarrow>
          \<lparr> page = i + 1, imagePath = imgPath, analysis = Some generated,
            error = None, success = True \<rparr>
      | Inl message \<Rightarrow>
          \<lparr> page = i + 1, imagePath = imgPath, analysis = None,
            error = Some message, success = False \<rparr>)"

text \<open>The batch as the specification describes it: the images one after the other, in
  the order of the list, each analysed by \<open>analyzeImage\<close> from the state the page before it
  left, with the page suffix appended to the prompt; the entry of a page records what
  \<open>analyzeImage\<close> returned or threw for this page, and the next page is taken in either
  case. \<open>i\<close> is the index of the first image of the list within the whole batch.\<close>

fun spec_batch ::
  "(nat \<Rightarrow> string \<Rightarrow> string \<Rightarrow> attempt_outcome) \<Rightarrow> string \<Rightarrow> nat \<Rightarrow> nat \<Rightarrow> string list \<Rightarrow> state
     \<Rightarrow> page_analysis list \<times> state"
where
  "spec_batch infer prompt pageTotal i [] st = ([], st)"
| "spec_batch infer prompt pageTotal i (imgPath # rest) st =
     (let attempt = analyzeImage infer imgPath (prompt @ spec_page_suffix (i + 1) pageTotal) 0 st;
          later = spec_batch infer prompt pageTotal (i + 1) rest (snd attempt)
      in (page_entry i imgPath (fst attempt) # fst later, snd later))"

text \<open>A backend that answers the fifth request only.\<close>

definition fifth_answers :: "nat \<Rightarrow> string \<Rightarrow> string \<Rightarrow> attempt_outcome" where
  "fifth_answers k imgPath prompt =
     (if k = 4 then Fetched (Inr (example_response ''Revenue 120''))
      else Fetched (Inl ''socket hang up''))"


text \<open>A password probe goes through when the document loads with the password and the
  decrypted copy is saved and written.\<close>

definition probe_succeeds :: "probe_outcome \<Rightarrow> bool" where
  "probe_succeeds outcome = (case outcome of Decrypted bytes \<Rightarrow> True | _ \<Rightarrow> False)"

text \<open>A file goes through processing when it is found on disk and \<open>processDocument\<close> returns
  a document for it.\<close>

definition processes_ok :: "world \<Rightarrow> uploaded_file \<Rightarrow> bool" where
  "processes_ok w file =
     (pathExists (file_env w (path_join (uploadsDir w) (filename file))) \<and>
      \<not> isl (fst (processDocument (file_env w (path_join (uploadsDir w) (filename file)))
                     (tempDir w) (path_join (uploadsDir w) (filename file)) file initial_state)))"

definition is_processing_event :: "sse_event \<Rightarrow> bool" where
  "is_processing_event e = (case e of Progress step progress message \<Rightarrow> step = ''processing'' | _ \<Rightarrow> False)"

definition is_analysis_event :: "sse_event \<Rightarrow> bool" where
  "is_analysis_event e = (case e of Progress step progress message \<Rightarrow> step = ''analysis'' | _ \<Rightarrow> False)"

definition is_terminal_event :: "sse_event \<Rightarrow> bool" where
  "is_terminal_event e = (case e of Progress step progress message \<Rightarrow> False | _ \<Rightarrow> True)"


text \<open>Examples of stored files: a PDF with three pages that is encrypted with the password
  admin, a spreadsheet export, and a path with nothing behind it.\<close>

definition admin_encrypted_pdf :: file_world where
  "admin_encrypted_pdf =
     \<lparr> pathExists = True, readFile_error = None, pdf_password = Some ''admin'',
       pdf_parse_error = None,
       probe_io = (\<lambda>password. Written ''%PDF-1.7 saved copy''),
       pdf_convert = (\<lambda>pdfPath. Inr [''page.1.png'', ''page.2.png'', ''page.3.png'']),
       stat_size = Inr 4096 \<rparr>"

definition stored_csv :: file_world where
  "stored_csv =
     \<lparr> pathExists = True, readFile_error = None, pdf_password = None,
       pdf_parse_error = Some ''Failed to parse PDF document'',
       probe_io = (\<lambda>password. Written []), pdf_convert = (\<lambda>pdfPath. Inr []),
       stat_size = Inr 2048 \<rparr>"

definition nothing_stored :: file_world where
  "nothing_stored =
     \<lparr> pathExists = False, readFile_error = Some ''ENOENT: no such file or directory'',
       pdf_password = None, pdf_parse_error = None, probe_io = (\<lambda>password. ReadThrows),
       pdf_convert = (\<lambda>pdfPath. Inl ''ENOENT: no such file or directory''),
       stat_size = Inl ''ENOENT: no such file or directory'' \<rparr>"

text \<open>An example of the outside world: the backend is reachable and the model installed,
  one spreadsheet export is stored, and the report request fails.\<close>

definition example_world :: world where
  "example_world =
     \<lparr> uploadsDir = ''/srv/uploads'', tempDir = ''/srv/temp'',
       baseUrl = ''http://localhost:11434'', connection_ok = True,
       file_env = (\<lambda>filePath. if filePath = ''/srv/uploads/a1-ledger.csv'' then stored_csv
                              else nothing_stored),
       modelAvailable = True, pullModel_error = None, image_inference = never_found,
       report_fetch = Inl ''connect ECONNREFUSED'', JSON_parse = (\<lambda>s. None) \<rparr>"

definition example_file :: "string \<Rightarrow> uploaded_file" where
  "example_file stored_name =
     \<lparr> file_id = ''f1'', originalName = ''ledger.csv'', doc_type = ''bank-statement'',
       mimetype = ''text/csv'', file_size = 2048, filename = stored_name \<rparr>"

text \<open>The same world with a backend that answers the report request with the fenced
  object.\<close>

definition model_world :: world where
  "model_world =
     example_world\<lparr>report_fetch := Inr (example_response example_fenced_text),
                    JSON_parse := example_parse\<rparr>"

text \<open>The entry of \<open>extractedData\<close> for the stored spreadsheet export.\<close>

definition ledger_entry :: document_analysis where
  "ledger_entry =
     \<lparr> documentId = ''f1'', documentName = ''ledger.csv'', documentType = ''bank-statement'',
       error = None,
       extractedInfo = ''File: a1-ledger.csv, Size: 2048 bytes, Type: text/csv'',
       analysis_type = Some ''bank-statement'', pageCount = None, pageAnalyses = None,
       textAnalysis = True \<rparr>"


section \<open>Properties of the fallback score\<close>

lemma successfulAnalyses_le: "successfulAnalyses ds \<le> length ds"
  by (simp add: successfulAnalyses_def)

lemma truthy_iff: "\<not> truthy v \<longleftrightarrow> v = None \<or> v = Some []"
  by (cases v) (simp_all add: truthy_def)

lemma hasFinancialDocs_iff:
  "hasFinancialDocs ds \<longleftrightarrow>
     (\<exists>doc \<in> set ds. documentType doc = ''profit-loss'' \<or> documentType doc = ''balance-sheet''
        \<or> documentType doc = ''bank-statement'')"
  by (auto simp: hasFinancialDocs_def list_ex_iff)

lemma scale20_le: "(q::rat) \<le> 1 \<Longrightarrow> q * 20 \<le> 20"
  by simp

lemma spec_bonus_successful:
  "spec_bonus ds = of_nat (successfulAnalyses ds) / of_nat (length ds) * 20"
  by (simp add: spec_bonus_def successfulAnalyses_def truthy_iff)

lemma spec_bonus_bounds:
  assumes "ds \<noteq> []"
  shows "0 \<le> spec_bonus ds" and "spec_bonus ds \<le> 20"
proof -
  have n: "0 < (of_nat (length ds) :: rat)" using assms by simp
  have "(of_nat (successfulAnalyses ds) :: rat) \<le> of_nat (length ds)"
    using successfulAnalyses_le [of ds] by (simp only: of_nat_le_iff)
  then have "(of_nat (successfulAnalyses ds) :: rat) / of_nat (length ds) \<le> 1"
    using n by (simp add: divide_le_eq)
  then show "spec_bonus ds \<le> 20" unfolding spec_bonus_successful by (rule scale20_le)
  show "0 \<le> spec_bonus ds" unfolding spec_bonus_successful by simp
qed

lemma spec_baseScore_cases: "spec_baseScore ds = 70 \<or> spec_baseScore ds = 50"
  by (simp add: spec_baseScore_def)

lemma baseScore_spec: "baseScore ds = Num (spec_baseScore ds)"
  by (simp add: baseScore_def spec_baseScore_def hasFinancialDocs_iff)

lemma analysisBonus_spec: "ds \<noteq> [] \<Longrightarrow> analysisBonus ds = Num (spec_bonus ds)"
  by (simp add: analysisBonus_def js_div_lengths_def spec_bonus_successful)

lemma spec_sum_range:
  assumes "ds \<noteq> []"
  shows "50 \<le> spec_baseScore ds + spec_bonus ds" and "spec_baseScore ds + spec_bonus ds \<le> 90"
  using spec_bonus_bounds [OF assms] spec_baseScore_cases [of ds] by auto

lemma fallback_score_spec:
  assumes "ds \<noteq> []"
  shows "fallback_score ds = Num (spec_baseScore ds + spec_bonus ds)"
  using spec_sum_range [OF assms]
  by (simp add: fallback_score_def baseScore_spec analysisBonus_spec [OF assms])

lemma score_fallback:
  "score (generateFallbackAnalysis ds) = Math_round (fallback_score ds)"
  by (simp add: generateFallbackAnalysis_def Let_def)

lemma rating_fallback:
  "rating (generateFallbackAnalysis ds) = rating_of (fallback_score ds)"
  by (simp add: generateFallbackAnalysis_def Let_def)

lemma round_range:
  fixes x :: rat
  assumes "of_int a \<le> x" and "x \<le> of_int b"
  shows "a \<le> \<lfloor>x + 1 / 2\<rfloor>" and "\<lfloor>x + 1 / 2\<rfloor> \<le> b"
proof -
  have "of_int a \<le> x + 1 / 2" using assms(1) by simp
  then show "a \<le> \<lfloor>x + 1 / 2\<rfloor>" by (simp add: le_floor_iff)
  have "x + 1 / 2 < of_int b + 1" using assms(2) by simp
  then show "\<lfloor>x + 1 / 2\<rfloor> \<le> b" by (simp add: floor_le_iff)
qed

text \<open>
  Claim C4. For every non-empty list of per-document results the score of the fallback report
  is the rounded clamp to 30..100 of base score plus bonus, where the base score is 70 if
  some document's declared type is profit-loss, balance-sheet or bank-statement and 50
  otherwise, and the bonus is twenty times the share of documents without an error; the
  score is an integer between 30 and 100. The source counts a document as being without an
  error by \<open>!doc.error\<close>; when no document carries an empty error message these are exactly
  the documents with no \<open>error\<close> property.
\<close>

theorem fallback_score_formula:
  assumes "extractedData \<noteq> []"
  shows "score (generateFallbackAnalysis extractedData) = Num (of_int (spec_fallback_score extractedData))
         \<and> 30 \<le> spec_fallback_score extractedData \<and> spec_fallback_score extractedData \<le> 100
         \<and> ((\<forall>doc \<in> set extractedData. document_analysis.error doc \<noteq> Some []) \<longrightarrow>
              spec_bonus extractedData =
                of_nat (length (filter (\<lambda>doc. document_analysis.error doc = None) extractedData))
                  / of_nat (length extractedData) * 20)"
proof -
  let ?x = "spec_baseScore extractedData + spec_bonus extractedData"
  have range: "50 \<le> ?x" "?x \<le> 90" using spec_sum_range [OF assms] by auto
  then have clamp: "max 30 (min 100 ?x) = ?x" by simp
  have "score (generateFallbackAnalysis extractedData) = Num (of_int \<lfloor>?x + 1 / 2\<rfloor>)"
    by (simp add: score_fallback fallback_score_spec [OF assms])
  then have a: "score (generateFallbackAnalysis extractedData)
                  = Num (of_int (spec_fallback_score extractedData))"
    by (simp add: spec_fallback_score_def clamp round_def)
  have "of_int 30 \<le> ?x" "?x \<le> of_int 100" using range by auto
  then have "30 \<le> \<lfloor>?x + 1 / 2\<rfloor>" "\<lfloor>?x + 1 / 2\<rfloor> \<le> 100" by (rule round_range)+
  then have b: "30 \<le> spec_fallback_score extractedData" "spec_fallback_score extractedData \<le> 100"
    by (simp_all add: spec_fallback_score_def clamp round_def)
  have c: "(\<forall>doc \<in> set extractedData. document_analysis.error doc \<noteq> Some []) \<longrightarrow>
              spec_bonus extractedData =
                of_nat (length (filter (\<lambda>doc. document_analysis.error doc = None) extractedData))
                  / of_nat (length extractedData) * 20"
  proof
    assume h: "\<forall>doc \<in> set extractedData. document_analysis.error doc \<noteq> Some []"
    have "filter (\<lambda>doc. document_analysis.error doc = None \<or> document_analysis.error doc = Some [])
            extractedData = filter (\<lambda>doc. document_analysis.error doc = None) extractedData"
      using h by (intro filter_cong) auto
    then show "spec_bonus extractedData =
                of_nat (length (filter (\<lambda>doc. document_analysis.error doc = None) extractedData))
                  / of_nat (length extractedData) * 20"
      by (simp add: spec_bonus_def)
  qed
  from a b c show ?thesis by blast
qed

lemma example_entry_simps:
  "documentType (example_entry ty err) = ty"
  "document_analysis.error (example_entry ty err) = err"
  by (simp_all add: example_entry_def)

theorem fallback_score_formula_witness:
  "[example_entry ''bank-statement'' None, example_entry ''other'' (Some ''timeout'')] \<noteq> []
   \<and> score (generateFallbackAnalysis
        [example_entry ''bank-statement'' None, example_entry ''other'' (Some ''timeout'')]) = Num 80
   \<and> spec_fallback_score
        [example_entry ''bank-statement'' None, example_entry ''other'' (Some ''timeout'')] = 80
   \<and> spec_bonus [example_entry ''bank-statement'' None, example_entry ''other'' (Some ''timeout'')] = 10"
proof -
  let ?ds = "[example_entry ''bank-statement'' None, example_entry ''other'' (Some ''timeout'')]"
  have ne: "?ds \<noteq> []" by simp
  have bonus: "spec_bonus ?ds = 10" by (simp add: spec_bonus_def example_entry_simps)
  have base: "spec_baseScore ?ds = 70" by (simp add: spec_baseScore_def example_entry_simps)
  have sc: "spec_fallback_score ?ds = 80"
    by (simp add: spec_fallback_score_def bonus base round_def floor_eq_iff)
  from fallback_score_formula [OF ne] have "score (generateFallbackAnalysis ?ds) = Num (of_int (spec_fallback_score ?ds))"
    by blast
  then show ?thesis using sc bonus by simp
qed

text \<open>
  Claim C10. For every non-empty list of per-document results the base score is at least 50
  and the bonus lies between 0 and 20, so the clamp changes nothing (the clamped score is the
  plain sum) and the reported score is an integer between 50 and 90.
\<close>

theorem fallback_score_tight_range:
  assumes "extractedData \<noteq> []"
  shows "\<exists>b c k. baseScore extractedData = Num b \<and> 50 \<le> b
           \<and> analysisBonus extractedData = Num c \<and> 0 \<le> c \<and> c \<le> 20
           \<and> fallback_score extractedData = Num (b + c)
           \<and> score (generateFallbackAnalysis extractedData) = Num (of_int k) \<and> 50 \<le> k \<and> k \<le> 90"
proof -
  let ?b = "spec_baseScore extractedData" and ?c = "spec_bonus extractedData"
  have "of_int 50 \<le> ?b + ?c" "?b + ?c \<le> of_int 90" using spec_sum_range [OF assms] by auto
  then have k: "50 \<le> \<lfloor>?b + ?c + 1 / 2\<rfloor>" "\<lfloor>?b + ?c + 1 / 2\<rfloor> \<le> 90" by (rule round_range)+
  have b: "50 \<le> ?b" using spec_baseScore_cases [of extractedData] by auto
  have s: "score (generateFallbackAnalysis extractedData) = Num (of_int \<lfloor>?b + ?c + 1 / 2\<rfloor>)"
    by (simp add: score_fallback fallback_score_spec [OF assms])
  show ?thesis
    using baseScore_spec [of extractedData] analysisBonus_spec [OF assms]
      fallback_score_spec [OF assms] spec_bonus_bounds [OF assms] b k s
    by blast
qed

theorem fallback_score_tight_range_witness:
  "[example_entry ''legal'' (Some ''timeout'')] \<noteq> []
   \<and> baseScore [example_entry ''legal'' (Some ''timeout'')] = Num 50
   \<and> analysisBonus [example_entry ''legal'' (Some ''timeout'')] = Num 0
   \<and> fallback_score [example_entry ''legal'' (Some ''timeout'')] = Num 50
   \<and> score (generateFallbackAnalysis [example_entry ''legal'' (Some ''timeout'')]) = Num 50"
proof -
  let ?ds = "[example_entry ''legal'' (Some ''timeout'')]"
  have ne: "?ds \<noteq> []" by simp
  obtain b c k where h: "baseScore ?ds = Num b" "analysisBonus ?ds = Num c"
      "fallback_score ?ds = Num (b + c)" "score (generateFallbackAnalysis ?ds) = Num (of_int k)"
    using fallback_score_tight_range [OF ne] by blast
  have b: "baseScore ?ds = Num 50"
    by (simp add: baseScore_def hasFinancialDocs_def example_entry_simps)
  have c: "analysisBonus ?ds = Num 0"
    by (simp add: analysisBonus_def successfulAnalyses_def js_div_lengths_def truthy_def
        example_entry_simps)
  from h b c have "fallback_score ?ds = Num 50" by simp
  moreover from this have "score (generateFallbackAnalysis ?ds) = Num 50"
    by (simp add: score_fallback floor_eq_iff)
  ultimately show ?thesis using b c by simp
qed


section \<open>Properties of the report call\<close>

lemma js_property_field:
  "js_property j key = Inr v \<Longrightarrow> js_truthy v \<Longrightarrow> v = js_field j key"
  by (cases j) (simp_all add: js_field_def)

lemma js_property_truthy:
  "js_truthy (js_field j key) \<Longrightarrow> js_property j key = Inr (js_field j key)"
  by (cases j) (simp_all add: js_field_def)

lemma parse_analysis_Inr:
  "parse_analysis parse data = Inr j \<longleftrightarrow>
     (\<exists>raw. data = Some raw \<and> parse (clean_response raw) = Some j \<and>
        js_truthy (js_field j ''score'') \<and> js_truthy (js_field j ''rating'') \<and>
        js_truthy (js_field j ''summary''))"
proof
  assume "parse_analysis parse data = Inr j"
  then show "\<exists>raw. data = Some raw \<and> parse (clean_response raw) = Some j \<and>
        js_truthy (js_field j ''score'') \<and> js_truthy (js_field j ''rating'') \<and>
        js_truthy (js_field j ''summary'')"
    by (auto simp: parse_analysis_def split: option.splits sum.splits if_splits
        dest: js_property_field)
next
  assume "\<exists>raw. data = Some raw \<and> parse (clean_response raw) = Some j \<and>
        js_truthy (js_field j ''score'') \<and> js_truthy (js_field j ''rating'') \<and>
        js_truthy (js_field j ''summary'')"
  then show "parse_analysis parse data = Inr j"
    by (auto simp: parse_analysis_def js_property_truthy)
qed

lemma generateCreditAnalysis_cases:
  "generateCreditAnalysis parse fetched ds =
     (case fetched of
        Inl e \<Rightarrow> Inr (FallbackReport (generateFallbackAnalysis ds))
      | Inr response \<Rightarrow>
          if \<not> ok response then Inr (FallbackReport (generateFallbackAnalysis ds))
          else (case body_json response of
                  Inl e \<Rightarrow> Inr (FallbackReport (generateFallbackAnalysis ds))
                | Inr data \<Rightarrow>
                    (case parse_analysis parse data of
                       Inl e \<Rightarrow> Inr (FallbackReport (generateFallbackAnalysis ds))
                     | Inr j \<Rightarrow> Inr (ModelReport j))))"
  by (simp add: generateCreditAnalysis_def try_catch_def split: sum.splits)

lemma report_call_failed_iff:
  "report_call_failed parse fetched \<longleftrightarrow>
     \<not> (\<exists>response data j. fetched = Inr response \<and> ok response \<and> body_json response = Inr data
          \<and> parse_analysis parse data = Inr j)"
  by (auto simp: report_call_failed_def parse_analysis_Inr split: sum.splits option.splits)

lemma generateCreditAnalysis_failed:
  "report_call_failed parse fetched \<Longrightarrow>
     generateCreditAnalysis parse fetched ds = Inr (FallbackReport (generateFallbackAnalysis ds))"
  unfolding report_call_failed_iff generateCreditAnalysis_cases
  by (auto split: sum.splits)

lemma generateCreditAnalysis_usable:
  "\<not> report_call_failed parse fetched \<Longrightarrow>
     \<exists>j. generateCreditAnalysis parse fetched ds = Inr (ModelReport j)"
  unfolding report_call_failed_iff generateCreditAnalysis_cases
  by (auto split: sum.splits)

lemma generateCreditAnalysis_total:
  "\<exists>r. generateCreditAnalysis parse fetched ds = Inr r"
  using generateCreditAnalysis_failed generateCreditAnalysis_usable by blast

lemma generateCreditAnalysis_ModelReport:
  "generateCreditAnalysis parse fetched ds = Inr (ModelReport j) \<Longrightarrow>
     js_truthy (js_field j ''score'') \<and> js_truthy (js_field j ''rating'') \<and>
     js_truthy (js_field j ''summary'')"
  unfolding generateCreditAnalysis_cases
  by (auto split: sum.splits if_splits simp: parse_analysis_Inr)

lemma generateCreditAnalysis_FallbackReport:
  "generateCreditAnalysis parse fetched ds = Inr (FallbackReport rep) \<Longrightarrow>
     rep = generateFallbackAnalysis ds"
  unfolding generateCreditAnalysis_cases
  by (auto split: sum.splits if_splits)

lemma analyzeDocuments_returns:
  assumes "modelAvailable w \<or> pullModel_error w = None"
  shows "\<exists>a. fst (analyzeDocuments w docs st) = Inr a"
proof -
  let ?st2 = "sendProgress ''analysis'' 80 ''Extracting financial data from documents...''
                (if modelAvailable w then st
                 else sendProgress ''analysis'' 75
                        ''Downloading AI model (this may take a few minutes)...'' st)"
  let ?ex = "extract_documents w (length docs) 0 docs [] ?st2"
  obtain r where r: "generateCreditAnalysis (JSON_parse w) (report_fetch w) (fst ?ex) = Inr r"
    using generateCreditAnalysis_total by blast
  have "(if modelAvailable w then None else pullModel_error w) = None"
    using assms by auto
  then show ?thesis
    using r by (simp add: analyzeDocuments_def Let_def)
qed

text \<open>
  Claim C1. \<open>generateCreditAnalysis\<close> never throws: it always returns a report. Whenever the
  report call fails (a network error, a status that is not OK, a response or a generated text
  that does not parse as JSON, or a parsed report without a score, a rating or a summary)
  it returns the deterministic fallback report; only a usable answer is returned as the
  model's report. So \<open>analyzeDocuments\<close>, the aggregation step that calls it, returns a
  result whenever the model is installed or can be pulled, whatever the model answered.
\<close>

theorem report_failure_gives_fallback:
  "(\<exists>r. generateCreditAnalysis parse fetched extractedData = Inr r)
   \<and> (report_call_failed parse fetched \<longrightarrow>
        generateCreditAnalysis parse fetched extractedData
          = Inr (FallbackReport (generateFallbackAnalysis extractedData)))
   \<and> (\<not> report_call_failed parse fetched \<longrightarrow>
        (\<exists>j. generateCreditAnalysis parse fetched extractedData = Inr (ModelReport j)))
   \<and> (modelAvailable w \<or> pullModel_error w = None \<longrightarrow>
        (\<exists>a. fst (analyzeDocuments w processedDocuments st) = Inr a))"
  using generateCreditAnalysis_total [of parse fetched extractedData]
    generateCreditAnalysis_failed [of parse fetched extractedData]
    generateCreditAnalysis_usable [of parse fetched extractedData]
    analyzeDocuments_returns [of w processedDocuments st]
  by blast

lemma example_single_fallback:
  "fallback_score [example_entry ''bank-statement'' None] = Num 90"
  by (simp add: fallback_score_def baseScore_def hasFinancialDocs_def analysisBonus_def
      successfulAnalyses_def js_div_lengths_def truthy_def example_entry_simps)

theorem report_failure_gives_fallback_witness:
  "report_call_failed (\<lambda>s. None) (Inr (example_response ''Sorry, no report.''))
   \<and> generateCreditAnalysis (\<lambda>s. None) (Inr (example_response ''Sorry, no report.''))
        [example_entry ''bank-statement'' None]
       = Inr (FallbackReport (generateFallbackAnalysis [example_entry ''bank-statement'' None]))
   \<and> rating (generateFallbackAnalysis [example_entry ''bank-statement'' None]) = ''Excellent''"
proof -
  have f: "report_call_failed (\<lambda>s. None) (Inr (example_response ''Sorry, no report.''))"
    by (simp add: report_call_failed_def example_response_def)
  have r: "rating (generateFallbackAnalysis [example_entry ''bank-statement'' None]) = ''Excellent''"
    by (simp add: rating_fallback example_single_fallback rating_of_def)
  from report_failure_gives_fallback
    [of "\<lambda>s. None" "Inr (example_response ''Sorry, no report.'')"
        "[example_entry ''bank-statement'' None]"] f r
  show ?thesis by blast
qed

lemma clean_example: "clean_response example_fenced_text = example_json_text @ ''\<newline>''"
  by (simp add: clean_response_def example_fenced_text_def example_json_text_def js_trim_def
      is_space_def startsWith_def)

lemma trim_example: "js_trim (example_json_text @ ''\<newline>'') = example_json_text"
  by (simp add: example_json_text_def js_trim_def is_space_def)

lemma example_parse_analysis:
  "parse_analysis example_parse (Some example_fenced_text) = Inr example_object"
  unfolding parse_analysis_Inr
  by (simp add: clean_example example_parse_def trim_example)
     (simp add: example_object_def js_field_def)

lemma example_model_report:
  "generateCreditAnalysis example_parse (Inr (example_response example_fenced_text)) ds
     = Inr (ModelReport example_object)"
  using example_parse_analysis by (simp add: generateCreditAnalysis_cases example_response_def)

lemma model_world_run:
  "fst (run_analysis model_world [example_file ''a1-ledger.csv''] initial_state)
     = Inr \<lparr> creditAnalysis = ModelReport example_object, documentAnalysis = [ledger_entry],
             totalDocuments = 1, documentTypes = [''bank-statement''] \<rparr>"
  by (simp add: run_analysis_def Let_def model_world_def example_world_def example_file_def
      initial_state_def sendProgress_def path_join_def stored_csv_def processDocument_def
      extractTextFromFile_def analyzeDocuments_def analyzeDocument_def
      example_model_report extracted_entry_def basename_def show_nat.simps digit_char_def
      ledger_entry_def)

lemma example_world_run:
  "fst (run_analysis example_world [example_file ''a1-ledger.csv''] initial_state)
     = Inr \<lparr> creditAnalysis = FallbackReport (generateFallbackAnalysis [ledger_entry]),
             documentAnalysis = [ledger_entry],
             totalDocuments = 1, documentTypes = [''bank-statement''] \<rparr>"
  by (simp add: run_analysis_def Let_def example_world_def example_file_def
      initial_state_def sendProgress_def path_join_def stored_csv_def processDocument_def
      extractTextFromFile_def analyzeDocuments_def analyzeDocument_def
      generateCreditAnalysis_cases extracted_entry_def basename_def show_nat.simps digit_char_def
      ledger_entry_def)

text \<open>
  Claim C2 as stated fails. On the model path the parsed object is delivered as the model
  wrote it, after a check that score, rating and summary are present: for one stored
  spreadsheet export and a backend that answers the report request with a fenced object of
  score 75 and rating Poor, the request ends with a result event that carries this object,
  while the thresholds assign Good to 75.
\<close>

theorem rating_consistency_counterexample:
  "fst (run_analysis model_world [example_file ''a1-ledger.csv''] initial_state)
     = Inr \<lparr> creditAnalysis = ModelReport example_object, documentAnalysis = [ledger_entry],
             totalDocuments = 1, documentTypes = [''bank-statement''] \<rparr>
   \<and> last (events (snd (analyze_request model_world [example_file ''a1-ledger.csv''] initial_state)))
       = ResultEvent \<lparr> creditAnalysis = ModelReport example_object,
                       documentAnalysis = [ledger_entry],
                       totalDocuments = 1, documentTypes = [''bank-statement''] \<rparr>
   \<and> js_field example_object ''score'' = Some (JNum 75)
   \<and> js_field example_object ''rating'' = Some (JStr ''Poor'')
   \<and> \<not> rating_consistent 75 ''Poor''"
proof -
  have a: "last (events (snd (analyze_request model_world [example_file ''a1-ledger.csv'']
                                initial_state)))
       = ResultEvent \<lparr> creditAnalysis = ModelReport example_object,
                       documentAnalysis = [ledger_entry],
                       totalDocuments = 1, documentTypes = [''bank-statement''] \<rparr>"
    by (simp add: analyze_request_def model_world_run Let_def)
  have b: "js_field example_object ''score'' = Some (JNum 75)"
    "js_field example_object ''rating'' = Some (JStr ''Poor'')"
    by (simp_all add: example_object_def js_field_def)
  have c: "\<not> rating_consistent 75 ''Poor''"
    by (simp add: rating_consistent_def)
  from model_world_run a b c show ?thesis by (intro conjI)
qed

lemma analyzeDocument_returns: "\<exists>c. fst (analyzeDocument infer doc st) = Inr c"
  by (simp add: analyzeDocument_def Let_def)

lemma extracted_entry_no_error:
  "document_analysis.error (extracted_entry doc (fst (analyzeDocument infer doc st))) = None"
proof -
  obtain c where "fst (analyzeDocument infer doc st) = Inr c"
    using analyzeDocument_returns by blast
  then show ?thesis by (cases c) (simp_all add: extracted_entry_def)
qed

lemma extract_documents_no_error:
  "list_all (\<lambda>d. document_analysis.error d = None) acc
     \<Longrightarrow> list_all (\<lambda>d. document_analysis.error d = None)
           (fst (extract_documents w n i docs acc st))"
proof (induction docs arbitrary: acc i st)
  case Nil
  then show ?case by simp
next
  case (Cons doc rest)
  show ?case
    unfolding extract_documents.simps Let_def
    by (rule Cons.IH) (simp add: Cons.prems extracted_entry_no_error)
qed

lemma extract_documents_length:
  "length (fst (extract_documents w n i docs acc st)) = length acc + length docs"
  by (induction docs arbitrary: acc i st) (simp_all add: Let_def)

lemma no_errors_fallback_score:
  assumes "ds \<noteq> []" and "list_all (\<lambda>d. document_analysis.error d = None) ds"
  shows "fallback_score ds = Num (if hasFinancialDocs ds then 90 else 70)"
proof -
  have "filter (\<lambda>doc. \<not> truthy (document_analysis.error doc)) ds = ds"
    using assms(2) by (simp add: filter_id_conv list_all_iff truthy_def)
  then have "successfulAnalyses ds = length ds" by (simp add: successfulAnalyses_def)
  then have "analysisBonus ds = Num 20"
    using assms(1) by (simp add: analysisBonus_def js_div_lengths_def)
  then show ?thesis by (simp add: fallback_score_def baseScore_def)
qed

lemma no_errors_fallback_report:
  assumes "ds \<noteq> []" and "list_all (\<lambda>d. document_analysis.error d = None) ds"
  shows "score (generateFallbackAnalysis ds) = Num (if hasFinancialDocs ds then 90 else 70)"
    and "rating (generateFallbackAnalysis ds) = (if hasFinancialDocs ds then ''Excellent'' else ''Good'')"
  by (simp_all add: score_fallback rating_fallback no_errors_fallback_score [OF assms]
      rating_of_def floor_eq_iff)

lemma analyzeDocuments_result:
  assumes "docs \<noteq> []" and "fst (analyzeDocuments w docs st) = Inr result"
  shows "documentAnalysis result \<noteq> []
     \<and> list_all (\<lambda>d. document_analysis.error d = None) (documentAnalysis result)
     \<and> generateCreditAnalysis (JSON_parse w) (report_fetch w) (documentAnalysis result)
         = Inr (creditAnalysis result)"
proof -
  let ?st2 = "sendProgress ''analysis'' 80 ''Extracting financial data from documents...''
                (if modelAvailable w then st
                 else sendProgress ''analysis'' 75
                        ''Downloading AI model (this may take a few minutes)...'' st)"
  let ?ex = "extract_documents w (length docs) 0 docs [] ?st2"
  have l: "length (fst ?ex) = length docs" by (simp add: extract_documents_length)
  with assms(1) have ne: "fst ?ex \<noteq> []" by auto
  have ok: "list_all (\<lambda>d. document_analysis.error d = None) (fst ?ex)"
    by (rule extract_documents_no_error) simp
  obtain r where r: "generateCreditAnalysis (JSON_parse w) (report_fetch w) (fst ?ex) = Inr r"
    using generateCreditAnalysis_total by blast
  from assms(2) have "documentAnalysis result = fst ?ex \<and> creditAnalysis result = r"
    using r by (auto simp: analyzeDocuments_def Let_def split: option.splits)
  with ne ok r show ?thesis by simp
qed

lemma run_analysis_result:
  assumes "fst (run_analysis w files st) = Inr result"
  shows "\<exists>docs st'. docs \<noteq> [] \<and> fst (analyzeDocuments w docs st') = Inr result"
  using assms
  by (auto simp: run_analysis_def Let_def split: if_splits sum.splits)

text \<open>
  Claim C2, amended. Whenever a request delivers a result, a report of the fallback path has
  an integer score and the rating that the thresholds 80, 70 and 60 assign to it: the
  documents that reach the report call are not empty and none of them carries an error, so
  the score is 90 with rating Excellent when a core financial statement is among them and
  70 with rating Good otherwise. A report of the model path carries the model's own score,
  rating and summary, each of them present and truthy.
\<close>

theorem rating_follows_thresholds:
  assumes "fst (run_analysis w files st) = Inr result"
  shows "case creditAnalysis result of
           FallbackReport rep \<Rightarrow>
             (\<exists>k :: int. score rep = Num (of_int k) \<and> rating_consistent (of_int k) (rating rep))
             \<and> (if hasFinancialDocs (documentAnalysis result)
                then score rep = Num 90 \<and> rating rep = ''Excellent''
                else score rep = Num 70 \<and> rating rep = ''Good'')
         | ModelReport j \<Rightarrow>
             js_truthy (js_field j ''score'') \<and> js_truthy (js_field j ''rating'')
             \<and> js_truthy (js_field j ''summary'')"
proof -
  from run_analysis_result [OF assms] obtain docs st' where
    d: "docs \<noteq> []" "fst (analyzeDocuments w docs st') = Inr result" by blast
  from analyzeDocuments_result [OF d] have
    ne: "documentAnalysis result \<noteq> []" and
    ok: "list_all (\<lambda>d. document_analysis.error d = None) (documentAnalysis result)" and
    g: "generateCreditAnalysis (JSON_parse w) (report_fetch w) (documentAnalysis result)
          = Inr (creditAnalysis result)"
    by simp_all
  show ?thesis
  proof (cases "creditAnalysis result")
    case (ModelReport j)
    then show ?thesis using g generateCreditAnalysis_ModelReport by simp
  next
    case (FallbackReport rep)
    then have rep: "rep = generateFallbackAnalysis (documentAnalysis result)"
      using g generateCreditAnalysis_FallbackReport by simp
    note r = no_errors_fallback_report [OF ne ok, folded rep]
    show ?thesis
    proof (cases "hasFinancialDocs (documentAnalysis result)")
      case True
      have "score rep = Num (of_int 90) \<and> rating_consistent (of_int 90) (rating rep)"
        using r True by (simp add: rating_consistent_def)
      then have "\<exists>k :: int. score rep = Num (of_int k) \<and> rating_consistent (of_int k) (rating rep)"
        by (rule exI)
      then show ?thesis using r True by (simp add: FallbackReport)
    next
      case False
      have "score rep = Num (of_int 70) \<and> rating_consistent (of_int 70) (rating rep)"
        using r False by (simp add: rating_consistent_def)
      then have "\<exists>k :: int. score rep = Num (of_int k) \<and> rating_consistent (of_int k) (rating rep)"
        by (rule exI)
      then show ?thesis using r False by (simp add: FallbackReport)
    qed
  qed
qed

theorem rating_follows_thresholds_witness:
  "fst (run_analysis example_world [example_file ''a1-ledger.csv''] initial_state)
     = Inr \<lparr> creditAnalysis = FallbackReport (generateFallbackAnalysis [ledger_entry]),
             documentAnalysis = [ledger_entry],
             totalDocuments = 1, documentTypes = [''bank-statement''] \<rparr>
   \<and> score (generateFallbackAnalysis [ledger_entry]) = Num 90
   \<and> rating (generateFallbackAnalysis [ledger_entry]) = ''Excellent''
   \<and> rating_consistent 90 ''Excellent''"
proof -
  have f: "hasFinancialDocs [ledger_entry]"
    by (simp add: hasFinancialDocs_def ledger_entry_def)
  from rating_follows_thresholds [OF example_world_run] f
  have "(\<exists>k :: int. score (generateFallbackAnalysis [ledger_entry]) = Num (of_int k)
              \<and> rating_consistent (of_int k) (rating (generateFallbackAnalysis [ledger_entry])))
        \<and> score (generateFallbackAnalysis [ledger_entry]) = Num 90
        \<and> rating (generateFallbackAnalysis [ledger_entry]) = ''Excellent''"
    by (simp add: rating_consistent_def)
  then obtain k :: int where
    k: "score (generateFallbackAnalysis [ledger_entry]) = Num (of_int k)"
      "rating_consistent (of_int k) (rating (generateFallbackAnalysis [ledger_entry]))"
    and s: "score (generateFallbackAnalysis [ledger_entry]) = Num 90"
      "rating (generateFallbackAnalysis [ledger_entry]) = ''Excellent''"
    by blast
  from k(1) s(1) have "(of_int k :: rat) = 90" by simp
  with k(2) s(2) have c: "rating_consistent 90 ''Excellent''" by simp
  from example_world_run s c show ?thesis by (intro conjI)
qed


section \<open>Properties of the Model Gateway\<close>

lemma attempts_trace_Suc:
  "0 < k \<Longrightarrow> attempts_trace p q (Suc k) = Attempt p q # Delay retryDelay # attempts_trace p q k"
  by (cases k) simp_all

lemma show_nat_4: "show_nat (maxRetries + 1) = ''4''"
  by (simp add: maxRetries_def show_nat.simps digit_char_def)

lemma show_nat_4': "show_nat (Suc maxRetries) = ''4''"
  using show_nat_4 by simp

lemma analyzeImage_run:
  assumes "retryCount \<le> maxRetries"
  shows "\<exists>k. 1 \<le> k \<and> k \<le> maxRetries + 1 - retryCount
     \<and> snd (analyzeImage infer p q retryCount st)
         = st\<lparr>requests := requests st + k, trace := trace st @ attempts_trace p q k\<rparr>
     \<and> list_all (\<lambda>j. isl (attempt_result p (infer (requests st + j) p q))) [0..<k - 1]
     \<and> (case fst (analyzeImage infer p q retryCount st) of
           Inr generated \<Rightarrow> attempt_result p (infer (requests st + (k - 1)) p q) = Inr generated
         | Inl message \<Rightarrow>
             k = maxRetries + 1 - retryCount
             \<and> (\<exists>e. attempt_result p (infer (requests st + (k - 1)) p q) = Inl e
                  \<and> message = ''Failed to analyze image after '' @ show_nat (maxRetries + 1)
                                @ '' attempts: '' @ e))"
  using assms
proof (induction infer p q retryCount st rule: analyzeImage.induct)
  case (1 infer p q retryCount st)
  let ?st1 = "st\<lparr>requests := requests st + 1, trace := trace st @ [Attempt p q]\<rparr>"
  show ?case
  proof (cases "attempt_result p (infer (requests st) p q)")
    case (Inr generated)
    then have "analyzeImage infer p q retryCount st = (Inr generated, ?st1)"
      by (simp add: analyzeImage.simps [of infer p q retryCount st])
    then show ?thesis using Inr "1.prems" by (intro exI [of _ 1]) simp
  next
    case (Inl e)
    show ?thesis
    proof (cases "retryCount < maxRetries")
      case False
      then have "analyzeImage infer p q retryCount st
          = (Inl (''Failed to analyze image after '' @ show_nat (maxRetries + 1)
                   @ '' attempts: '' @ e), ?st1)"
        using Inl by (simp add: analyzeImage.simps [of infer p q retryCount st])
      moreover have "maxRetries + 1 - retryCount = 1" using False "1.prems" by simp
      ultimately show ?thesis using Inl by (intro exI [of _ 1]) simp
    next
      case True
      let ?st2 = "?st1\<lparr>trace := trace ?st1 @ [Delay retryDelay]\<rparr>"
      have unfold: "analyzeImage infer p q retryCount st
          = analyzeImage infer p q (retryCount + 1) ?st2"
        using Inl True by (simp add: analyzeImage.simps [of infer p q retryCount st])
      from True have "retryCount + 1 \<le> maxRetries" by simp
      from "1.IH" [OF refl Inl True this]
      obtain k where k: "1 \<le> k" "k \<le> maxRetries + 1 - (retryCount + 1)"
        "snd (analyzeImage infer p q (retryCount + 1) ?st2)
           = ?st2\<lparr>requests := requests ?st2 + k, trace := trace ?st2 @ attempts_trace p q k\<rparr>"
        "list_all (\<lambda>j. isl (attempt_result p (infer (requests ?st2 + j) p q))) [0..<k - 1]"
        "case fst (analyzeImage infer p q (retryCount + 1) ?st2) of
           Inr generated \<Rightarrow> attempt_result p (infer (requests ?st2 + (k - 1)) p q) = Inr generated
         | Inl message \<Rightarrow>
             k = maxRetries + 1 - (retryCount + 1)
             \<and> (\<exists>e. attempt_result p (infer (requests ?st2 + (k - 1)) p q) = Inl e
                  \<and> message = ''Failed to analyze image after '' @ show_nat (maxRetries + 1)
                                @ '' attempts: '' @ e)"
        by blast
      have a: "1 \<le> Suc k" "Suc k \<le> maxRetries + 1 - retryCount" using k(1,2) True by auto
      have b: "snd (analyzeImage infer p q retryCount st)
         = st\<lparr>requests := requests st + Suc k, trace := trace st @ attempts_trace p q (Suc k)\<rparr>"
        using k(1,3) by (simp add: unfold attempts_trace_Suc)
      have upt: "[0..<Suc k - 1] = 0 # map Suc [0..<k - 1]"
        using k(1) by (simp add: upt_conv_Cons map_Suc_upt) 
      have c: "list_all (\<lambda>j. isl (attempt_result p (infer (requests st + j) p q))) [0..<Suc k - 1]"
        using k(4) Inl unfolding upt by (simp add: list.pred_map comp_def)
      have idx: "requests ?st2 + (k - 1) = requests st + (Suc k - 1)" using k(1) by simp
      have d: "case fst (analyzeImage infer p q retryCount st) of
           Inr generated \<Rightarrow> attempt_result p (infer (requests st + (Suc k - 1)) p q) = Inr generated
         | Inl message \<Rightarrow>
             Suc k = maxRetries + 1 - retryCount
             \<and> (\<exists>e. attempt_result p (infer (requests st + (Suc k - 1)) p q) = Inl e
                  \<and> message = ''Failed to analyze image after '' @ show_nat (maxRetries + 1)
                                @ '' attempts: '' @ e)"
        using k(5) True unfolding unfold idx by (auto split: sum.splits)
      from a b c d show ?thesis by blast
    qed
  qed
qed

text \<open>
  Claim C5. For every image path and prompt, \<open>analyzeImage\<close> (called as its callers do, with
  the retry counter at 0) runs its body \<open>k\<close> times with \<open>1 \<le> k \<le> maxRetries + 1 = 4\<close>, waiting
  the fixed \<open>retryDelay\<close> of 2000 milliseconds between two consecutive attempts and nowhere
  else; every attempt before the last one failed; a result is the text of the last attempt, and
  a failure comes only after four attempts and carries the message of the fourth attempt's
  error. The function is total: its recursion is bounded by the retry counter.
\<close>

theorem analyzeImage_bounded_retries:
  "maxRetries + 1 = 4 \<and> retryDelay = 2000
   \<and> (\<exists>k. 1 \<le> k \<and> k \<le> 4
        \<and> snd (analyzeImage infer imgPath prompt 0 st)
            = st\<lparr>requests := requests st + k,
                 trace := trace st @ attempts_trace imgPath prompt k\<rparr>
        \<and> list_all (\<lambda>j. isl (attempt_result imgPath (infer (requests st + j) imgPath prompt)))
              [0..<k - 1]
        \<and> (case fst (analyzeImage infer imgPath prompt 0 st) of
              Inr generated \<Rightarrow>
                attempt_result imgPath (infer (requests st + (k - 1)) imgPath prompt) = Inr generated
            | Inl message \<Rightarrow>
                k = 4
                \<and> (\<exists>e. attempt_result imgPath (infer (requests st + (k - 1)) imgPath prompt) = Inl e
                     \<and> message = ''Failed to analyze image after 4 attempts: '' @ e)))"
proof -
  let ?run = "analyzeImage infer imgPath prompt 0 st"
  have m: "maxRetries + 1 = 4" and d: "retryDelay = 2000"
    by (simp_all add: maxRetries_def retryDelay_def)
  have s4: "show_nat (maxRetries + 1) = ''4''" by (rule show_nat_4)
  have "0 \<le> maxRetries" by simp
  from analyzeImage_run [OF this, of infer imgPath prompt st]
  obtain k where k: "1 \<le> k" "k \<le> maxRetries + 1 - 0"
    "snd ?run = st\<lparr>requests := requests st + k,
                   trace := trace st @ attempts_trace imgPath prompt k\<rparr>"
    "list_all (\<lambda>j. isl (attempt_result imgPath (infer (requests st + j) imgPath prompt)))
       [0..<k - 1]"
    "case fst ?run of
       Inr generated \<Rightarrow>
         attempt_result imgPath (infer (requests st + (k - 1)) imgPath prompt) = Inr generated
     | Inl message \<Rightarrow>
         k = maxRetries + 1 - 0
         \<and> (\<exists>e. attempt_result imgPath (infer (requests st + (k - 1)) imgPath prompt) = Inl e
              \<and> message = ''Failed to analyze image after '' @ show_nat (maxRetries + 1)
                            @ '' attempts: '' @ e)"
    by blast
  have k4: "k \<le> 4" using k(2) m by simp
  have last: "case fst ?run of
       Inr generated \<Rightarrow>
         attempt_result imgPath (infer (requests st + (k - 1)) imgPath prompt) = Inr generated
     | Inl message \<Rightarrow>
         k = 4
         \<and> (\<exists>e. attempt_result imgPath (infer (requests st + (k - 1)) imgPath prompt) = Inl e
              \<and> message = ''Failed to analyze image after 4 attempts: '' @ e)"
  proof (cases "fst ?run")
    case (Inr generated)
    then show ?thesis using k(5) by simp
  next
    case (Inl message)
    then show ?thesis using k(5) m by (auto simp add: show_nat_4')
  qed
  from m d k(1) k4 k(3) k(4) last show ?thesis by blast
qed

lemma never_found_fails:
  "fst (analyzeImage never_found ''/tmp/p1.png'' ''Read'' 0 initial_state)
     = Inl ''Failed to analyze image after 4 attempts: Image file not found: /tmp/p1.png''"
  by (simp add: analyzeImage.simps never_found_def attempt_result_def maxRetries_def
      show_nat.simps digit_char_def)

theorem analyzeImage_bounded_retries_witness:
  "fst (analyzeImage never_found ''/tmp/p1.png'' ''Read'' 0 initial_state)
     = Inl ''Failed to analyze image after 4 attempts: Image file not found: /tmp/p1.png''
   \<and> requests (snd (analyzeImage never_found ''/tmp/p1.png'' ''Read'' 0 initial_state)) = 4
   \<and> trace (snd (analyzeImage never_found ''/tmp/p1.png'' ''Read'' 0 initial_state))
       = [Attempt ''/tmp/p1.png'' ''Read'', Delay 2000,
          Attempt ''/tmp/p1.png'' ''Read'', Delay 2000,
          Attempt ''/tmp/p1.png'' ''Read'', Delay 2000,
          Attempt ''/tmp/p1.png'' ''Read'']"
proof -
  let ?run = "analyzeImage never_found ''/tmp/p1.png'' ''Read'' 0 initial_state"
  from analyzeImage_bounded_retries [of never_found "''/tmp/p1.png''" "''Read''" initial_state]
  obtain k where k:
    "snd ?run = initial_state\<lparr>requests := requests initial_state + k,
        trace := trace initial_state @ attempts_trace ''/tmp/p1.png'' ''Read'' k\<rparr>"
    "case fst ?run of
       Inr generated \<Rightarrow>
         attempt_result ''/tmp/p1.png''
           (never_found (requests initial_state + (k - 1)) ''/tmp/p1.png'' ''Read'') = Inr generated
     | Inl message \<Rightarrow>
         k = 4
         \<and> (\<exists>e. attempt_result ''/tmp/p1.png''
                  (never_found (requests initial_state + (k - 1)) ''/tmp/p1.png'' ''Read'') = Inl e
              \<and> message = ''Failed to analyze image after 4 attempts: '' @ e)"
    by blast
  from k(2) have k4: "k = 4" by (simp add: never_found_fails)
  have four: "attempts_trace ''/tmp/p1.png'' ''Read'' 4
       = [Attempt ''/tmp/p1.png'' ''Read'', Delay 2000,
          Attempt ''/tmp/p1.png'' ''Read'', Delay 2000,
          Attempt ''/tmp/p1.png'' ''Read'', Delay 2000,
          Attempt ''/tmp/p1.png'' ''Read'']"
    by (simp add: numeral_eq_Suc retryDelay_def)
  show ?thesis
    using never_found_fails k(1) by (simp add: k4 four initial_state_def)
qed

lemma attempt_result_nonempty: "attempt_result p outcome = Inr generated \<Longrightarrow> generated \<noteq> []"
  by (auto simp: attempt_result_def split: attempt_outcome.splits sum.splits option.splits if_splits)

lemma analyzeImage_outcome:
  "\<exists>k. 1 \<le> k \<and> k \<le> maxRetries + 1
     \<and> snd (analyzeImage infer p q 0 st)
         = st\<lparr>requests := requests st + k, trace := trace st @ attempts_trace p q k\<rparr>
     \<and> (case fst (analyzeImage infer p q 0 st) of
           Inr generated \<Rightarrow> generated \<noteq> []
         | Inl message \<Rightarrow> message \<noteq> [])"
proof -
  have "0 \<le> maxRetries" by simp
  from analyzeImage_run [OF this, of infer p q st]
  obtain k where k: "1 \<le> k" "k \<le> maxRetries + 1 - 0"
    "snd (analyzeImage infer p q 0 st)
       = st\<lparr>requests := requests st + k, trace := trace st @ attempts_trace p q k\<rparr>"
    "case fst (analyzeImage infer p q 0 st) of
       Inr generated \<Rightarrow> attempt_result p (infer (requests st + (k - 1)) p q) = Inr generated
     | Inl message \<Rightarrow>
         k = maxRetries + 1 - 0
         \<and> (\<exists>e. attempt_result p (infer (requests st + (k - 1)) p q) = Inl e
              \<and> message = ''Failed to analyze image after '' @ show_nat (maxRetries + 1)
                            @ '' attempts: '' @ e)"
    by blast
  have "case fst (analyzeImage infer p q 0 st) of
           Inr generated \<Rightarrow> generated \<noteq> []
         | Inl message \<Rightarrow> message \<noteq> []"
    using k(4) by (auto split: sum.splits dest: attempt_result_nonempty)
  with k(1,2,3) show ?thesis by auto
qed

lemma page_entry_simps:
  "page (page_entry i p outcome) = i + 1"
  "imagePath (page_entry i p outcome) = p"
  by (simp_all add: page_entry_def split: sum.splits)

lemma page_entry_well_formed:
  "(case outcome of Inr generated \<Rightarrow> generated \<noteq> [] | Inl message \<Rightarrow> message \<noteq> [])
     \<Longrightarrow> narrative_xor_error (page_entry i p outcome)"
  by (auto simp: page_entry_def narrative_xor_error_def truthy_def split: sum.splits)

lemma page_prompt_suffix:
  "page_prompt prompt pageNo pageTotal = prompt @ spec_page_suffix pageNo pageTotal"
  by (simp add: page_prompt_def spec_page_suffix_def)

lemma batch_trace_step:
  "i < length imagePaths \<Longrightarrow>
     batch_trace imagePaths prompt i (k # ks)
       = attempts_trace (imagePaths ! i) (page_prompt prompt (i + 1) (length imagePaths)) k
         @ batch_trace imagePaths prompt (Suc i) ks"
  by (simp add: batch_trace_def upt_conv_Cons page_prompt_suffix)

lemma batch_trace_end: "batch_trace imagePaths prompt (length imagePaths) [] = []"
  by (simp add: batch_trace_def)

lemma analyzeMultipleImages_from_run:
  assumes "i \<le> length imagePaths"
  shows "\<exists>new ks.
       fst (analyzeMultipleImages_from infer imagePaths prompt i results st) = results @ new
     \<and> length new = length imagePaths - i
     \<and> map page new = [i + 1..<length imagePaths + 1]
     \<and> map imagePath new = drop i imagePaths
     \<and> list_all narrative_xor_error new
     \<and> length ks = length imagePaths - i
     \<and> list_all (\<lambda>k. 1 \<le> k \<and> k \<le> maxRetries + 1) ks
     \<and> snd (analyzeMultipleImages_from infer imagePaths prompt i results st)
         = st\<lparr>requests := requests st + sum_list ks,
              trace := trace st @ batch_trace imagePaths prompt i ks\<rparr>"
  using assms
proof (induction infer imagePaths prompt i results st rule: analyzeMultipleImages_from.induct)
  case (1 infer imagePaths prompt i results st)
  show ?case
  proof (cases "i < length imagePaths")
    case False
    with "1.prems" have i: "i = length imagePaths" by simp
    have "analyzeMultipleImages_from infer imagePaths prompt i results st = (results, st)"
      using False by (simp add: analyzeMultipleImages_from.simps [of infer imagePaths prompt i])
    then show ?thesis
      using i by (intro exI [of _ "[]"]) (simp add: batch_trace_end)
  next
    case True
    let ?p = "imagePaths ! i"
    let ?q = "page_prompt prompt (i + 1) (length imagePaths)"
    let ?attempt = "analyzeImage infer ?p ?q 0 st"
    let ?entry = "page_entry i ?p (fst ?attempt)"
    have unfold: "analyzeMultipleImages_from infer imagePaths prompt i results st
        = analyzeMultipleImages_from infer imagePaths prompt (i + 1) (results @ [?entry])
            (snd ?attempt)"
      using True
      by (simp add: analyzeMultipleImages_from.simps [of infer imagePaths prompt i] Let_def
          page_entry_def)
    obtain k where k: "1 \<le> k" "k \<le> maxRetries + 1"
      "snd ?attempt = st\<lparr>requests := requests st + k, trace := trace st @ attempts_trace ?p ?q k\<rparr>"
      "case fst ?attempt of Inr generated \<Rightarrow> generated \<noteq> [] | Inl message \<Rightarrow> message \<noteq> []"
      using analyzeImage_outcome [of infer ?p ?q st] by blast
    from True have "i + 1 \<le> length imagePaths" by simp
    from "1.IH" [OF True refl refl refl this, folded page_entry_def]
    obtain new ks where n:
      "fst (analyzeMultipleImages_from infer imagePaths prompt (i + 1) (results @ [?entry])
              (snd ?attempt)) = (results @ [?entry]) @ new"
      "length new = length imagePaths - (i + 1)"
      "map page new = [i + 1 + 1..<length imagePaths + 1]"
      "map imagePath new = drop (i + 1) imagePaths"
      "list_all narrative_xor_error new"
      "length ks = length imagePaths - (i + 1)"
      "list_all (\<lambda>k. 1 \<le> k \<and> k \<le> maxRetries + 1) ks"
      "snd (analyzeMultipleImages_from infer imagePaths prompt (i + 1) (results @ [?entry])
              (snd ?attempt))
         = (snd ?attempt)\<lparr>requests := requests (snd ?attempt) + sum_list ks,
              trace := trace (snd ?attempt) @ batch_trace imagePaths prompt (i + 1) ks\<rparr>"
      by blast
    have a: "fst (analyzeMultipleImages_from infer imagePaths prompt i results st)
               = results @ (?entry # new)"
      using n(1) by (simp add: unfold)
    have b: "length (?entry # new) = length imagePaths - i" using n(2) True by simp
    have c: "map page (?entry # new) = [i + 1..<length imagePaths + 1]"
      using n(3) True by (simp add: page_entry_simps upt_conv_Cons)
    have d: "map imagePath (?entry # new) = drop i imagePaths"
      using n(4) True by (simp add: page_entry_simps Cons_nth_drop_Suc)
    have e: "list_all narrative_xor_error (?entry # new)"
      using n(5) page_entry_well_formed [OF k(4)] by simp
    have f: "length (k # ks) = length imagePaths - i" using n(6) True by simp
    have g: "list_all (\<lambda>k. 1 \<le> k \<and> k \<le> maxRetries + 1) (k # ks)" using n(7) k(1,2) by simp
    have h: "snd (analyzeMultipleImages_from infer imagePaths prompt i results st)
         = st\<lparr>requests := requests st + sum_list (k # ks),
              trace := trace st @ batch_trace imagePaths prompt i (k # ks)\<rparr>"
      using n(8) k(3) by (simp add: unfold batch_trace_step [OF True] add.assoc)
    from a b c d e f g h show ?thesis by blast
  qed
qed

lemma analyzeMultipleImages_from_spec:
  assumes "i \<le> length imagePaths"
  shows "analyzeMultipleImages_from infer imagePaths prompt i results st
     = (results @ fst (spec_batch infer prompt (length imagePaths) i (drop i imagePaths) st),
        snd (spec_batch infer prompt (length imagePaths) i (drop i imagePaths) st))"
  using assms
proof (induction infer imagePaths prompt i results st rule: analyzeMultipleImages_from.induct)
  case (1 infer imagePaths prompt i results st)
  show ?case
  proof (cases "i < length imagePaths")
    case False
    with "1.prems" have i: "i = length imagePaths" by simp
    have "analyzeMultipleImages_from infer imagePaths prompt i results st = (results, st)"
      using False by (simp add: analyzeMultipleImages_from.simps [of infer imagePaths prompt i])
    then show ?thesis using i by simp
  next
    case True
    let ?p = "imagePaths ! i"
    let ?q = "page_prompt prompt (i + 1) (length imagePaths)"
    let ?attempt = "analyzeImage infer ?p ?q 0 st"
    let ?entry = "page_entry i ?p (fst ?attempt)"
    have unfold: "analyzeMultipleImages_from infer imagePaths prompt i results st
        = analyzeMultipleImages_from infer imagePaths prompt (i + 1) (results @ [?entry])
            (snd ?attempt)"
      using True
      by (simp add: analyzeMultipleImages_from.simps [of infer imagePaths prompt i] Let_def
          page_entry_def)
    from True have le: "i + 1 \<le> length imagePaths" by simp
    have ih: "analyzeMultipleImages_from infer imagePaths prompt (i + 1) (results @ [?entry])
            (snd ?attempt)
        = ((results @ [?entry])
             @ fst (spec_batch infer prompt (length imagePaths) (i + 1) (drop (i + 1) imagePaths)
                      (snd ?attempt)),
           snd (spec_batch infer prompt (length imagePaths) (i + 1) (drop (i + 1) imagePaths)
                  (snd ?attempt)))"
      using "1.IH" [OF True refl refl refl le, folded page_entry_def] .
    have dr: "drop i imagePaths = ?p # drop (i + 1) imagePaths"
      using True by (simp add: Cons_nth_drop_Suc)
    have sp: "spec_batch infer prompt (length imagePaths) i (drop i imagePaths) st
        = (?entry # fst (spec_batch infer prompt (length imagePaths) (i + 1)
                           (drop (i + 1) imagePaths) (snd ?attempt)),
           snd (spec_batch infer prompt (length imagePaths) (i + 1)
                  (drop (i + 1) imagePaths) (snd ?attempt)))"
      unfolding dr by (simp add: Let_def page_prompt_suffix)
    show ?thesis unfolding unfold ih sp by simp
  qed
qed

text \<open>
  Claim C8. For every list of \<open>n\<close> image paths \<open>analyzeMultipleImages\<close> returns \<open>n\<close> results,
  with the page numbers 1 to \<open>n\<close> and the image paths in the order of the input. The run is
  the one the specification describes (\<open>spec_batch\<close>): page \<open>i\<close> of \<open>n\<close> is sent to
  \<open>analyzeImage\<close> with the prompt followed by the sentence "This is page \<open>i\<close> of \<open>n\<close>. Please
  analyze this page and extract relevant financial information. Be specific and detailed in
  your analysis.", and the entry of that page records the outcome of that very call: the
  narrative if it returned one, its error message otherwise, never both. The gateway works
  through the pages one after the other, each with one to four attempts, whatever happened
  to the pages before it.
\<close>

theorem analyzeMultipleImages_records_every_page:
  "analyzeMultipleImages infer imagePaths prompt st
     = spec_batch infer prompt (length imagePaths) 0 imagePaths st
   \<and> (\<exists>ks. length (fst (analyzeMultipleImages infer imagePaths prompt st)) = length imagePaths
        \<and> map page (fst (analyzeMultipleImages infer imagePaths prompt st))
            = [1..<length imagePaths + 1]
        \<and> map imagePath (fst (analyzeMultipleImages infer imagePaths prompt st)) = imagePaths
        \<and> list_all narrative_xor_error (fst (analyzeMultipleImages infer imagePaths prompt st))
        \<and> length ks = length imagePaths
        \<and> list_all (\<lambda>k. 1 \<le> k \<and> k \<le> 4) ks
        \<and> snd (analyzeMultipleImages infer imagePaths prompt st)
            = st\<lparr>requests := requests st + sum_list ks,
                 trace := trace st @ batch_trace imagePaths prompt 0 ks\<rparr>)"
proof -
  have z: "0 \<le> length imagePaths" by simp
  have spec: "analyzeMultipleImages infer imagePaths prompt st
     = spec_batch infer prompt (length imagePaths) 0 imagePaths st"
    unfolding analyzeMultipleImages_def analyzeMultipleImages_from_spec [OF z] by simp
  from analyzeMultipleImages_from_run [OF z, of infer prompt "[]" st]
  obtain new ks where n:
    "fst (analyzeMultipleImages_from infer imagePaths prompt 0 [] st) = [] @ new"
    "length new = length imagePaths - 0"
    "map page new = [0 + 1..<length imagePaths + 1]"
    "map imagePath new = drop 0 imagePaths"
    "list_all narrative_xor_error new"
    "length ks = length imagePaths - 0"
    "list_all (\<lambda>k. 1 \<le> k \<and> k \<le> maxRetries + 1) ks"
    "snd (analyzeMultipleImages_from infer imagePaths prompt 0 [] st)
       = st\<lparr>requests := requests st + sum_list ks,
            trace := trace st @ batch_trace imagePaths prompt 0 ks\<rparr>"
    by blast
  have "list_all (\<lambda>k. 1 \<le> k \<and> k \<le> 4) ks" using n(7) by (simp add: maxRetries_def)
  with n have "\<exists>ks. length (fst (analyzeMultipleImages infer imagePaths prompt st)) = length imagePaths
        \<and> map page (fst (analyzeMultipleImages infer imagePaths prompt st))
            = [1..<length imagePaths + 1]
        \<and> map imagePath (fst (analyzeMultipleImages infer imagePaths prompt st)) = imagePaths
        \<and> list_all narrative_xor_error (fst (analyzeMultipleImages infer imagePaths prompt st))
        \<and> length ks = length imagePaths
        \<and> list_all (\<lambda>k. 1 \<le> k \<and> k \<le> 4) ks
        \<and> snd (analyzeMultipleImages infer imagePaths prompt st)
            = st\<lparr>requests := requests st + sum_list ks,
                 trace := trace st @ batch_trace imagePaths prompt 0 ks\<rparr>"
    unfolding analyzeMultipleImages_def by (intro exI [of _ ks]) simp
  with spec show ?thesis by (rule conjI)
qed

lemma fifth_answers_spec_batch:
  "spec_batch fifth_answers ''Read'' 2 0 [''/tmp/p1.png'', ''/tmp/p2.png''] initial_state
     = ([\<lparr> page = 1, imagePath = ''/tmp/p1.png'', analysis = None,
            error = Some ''Failed to analyze image after 4 attempts: socket hang up'',
            success = False \<rparr>,
         \<lparr> page = 2, imagePath = ''/tmp/p2.png'', analysis = Some ''Revenue 120'',
            error = None, success = True \<rparr>],
        \<lparr> requests = 5,
          trace =
            [Attempt ''/tmp/p1.png'' ''Read\<newline>\<newline>This is page 1 of 2. Please analyze this page and extract relevant financial information. Be specific and detailed in your analysis.'',
             Delay 2000,
             Attempt ''/tmp/p1.png'' ''Read\<newline>\<newline>This is page 1 of 2. Please analyze this page and extract relevant financial information. Be specific and detailed in your analysis.'',
             Delay 2000,
             Attempt ''/tmp/p1.png'' ''Read\<newline>\<newline>This is page 1 of 2. Please analyze this page and extract relevant financial information. Be specific and detailed in your analysis.'',
             Delay 2000,
             Attempt ''/tmp/p1.png'' ''Read\<newline>\<newline>This is page 1 of 2. Please analyze this page and extract relevant financial information. Be specific and detailed in your analysis.'',
             Attempt ''/tmp/p2.png'' ''Read\<newline>\<newline>This is page 2 of 2. Please analyze this page and extract relevant financial information. Be specific and detailed in your analysis.''],
          probes = [], written = [], events = [] \<rparr>)"
proof -
  have s0: "show_nat 1 = ''1''" "show_nat 2 = ''2''" "show_nat 4 = ''4''"
    by (simp_all add: show_nat.simps digit_char_def)
  have s: "show_nat (Suc 0) = ''1''" "show_nat (Suc (Suc 0)) = ''2''"
    "show_nat (Suc (Suc (Suc (Suc 0)))) = ''4''"
    using s0 by (simp_all add: eval_nat_numeral)
  show ?thesis
    by (simp add: analyzeImage.simps fifth_answers_def attempt_result_def example_response_def
        maxRetries_def retryDelay_def spec_page_suffix_def page_entry_def s initial_state_def
        Let_def eval_nat_numeral)
qed

theorem analyzeMultipleImages_records_every_page_witness:
  "analyzeMultipleImages fifth_answers [''/tmp/p1.png'', ''/tmp/p2.png''] ''Read'' initial_state
     = ([\<lparr> page = 1, imagePath = ''/tmp/p1.png'', analysis = None,
            error = Some ''Failed to analyze image after 4 attempts: socket hang up'',
            success = False \<rparr>,
         \<lparr> page = 2, imagePath = ''/tmp/p2.png'', analysis = Some ''Revenue 120'',
            error = None, success = True \<rparr>],
        \<lparr> requests = 5,
          trace =
            [Attempt ''/tmp/p1.png'' ''Read\<newline>\<newline>This is page 1 of 2. Please analyze this page and extract relevant financial information. Be specific and detailed in your analysis.'',
             Delay 2000,
             Attempt ''/tmp/p1.png'' ''Read\<newline>\<newline>This is page 1 of 2. Please analyze this page and extract relevant financial information. Be specific and detailed in your analysis.'',
             Delay 2000,
             Attempt ''/tmp/p1.png'' ''Read\<newline>\<newline>This is page 1 of 2. Please analyze this page and extract relevant financial information. Be specific and detailed in your analysis.'',
             Delay 2000,
             Attempt ''/tmp/p1.png'' ''Read\<newline>\<newline>This is page 1 of 2. Please analyze this page and extract relevant financial information. Be specific and detailed in your analysis.'',
             Attempt ''/tmp/p2.png'' ''Read\<newline>\<newline>This is page 2 of 2. Please analyze this page and extract relevant financial information. Be specific and detailed in your analysis.''],
          probes = [], written = [], events = [] \<rparr>)"
proof -
  from analyzeMultipleImages_records_every_page
         [of fifth_answers "[''/tmp/p1.png'', ''/tmp/p2.png'']" "''Read''" initial_state]
  have "analyzeMultipleImages fifth_answers [''/tmp/p1.png'', ''/tmp/p2.png''] ''Read'' initial_state
          = spec_batch fifth_answers ''Read'' (length [''/tmp/p1.png'', ''/tmp/p2.png'']) 0
              [''/tmp/p1.png'', ''/tmp/p2.png''] initial_state"
    by (rule conjunct1)
  moreover have "length [''/tmp/p1.png'', ''/tmp/p2.png''] = (2 :: nat)"
    by simp
  ultimately show ?thesis
    by (simp only: fifth_answers_spec_batch)
qed


section \<open>Properties of the Document Analyzer\<close>

lemma spec_labels_filter:
  "spec_labels pages = map page_label (filter (\<lambda>a. \<not> truthy (page_analysis.error a)) pages)"
  by (induction pages) (simp_all add: page_label_def)

lemma js_join_nonempty: "xs \<noteq> [] \<Longrightarrow> hd xs \<noteq> [] \<Longrightarrow> js_join separator xs \<noteq> []"
  by (induction separator xs rule: js_join.induct) simp_all

lemma page_label_nonempty: "page_label a \<noteq> []"
  by (simp add: page_label_def)

text \<open>
  Claim C7. For every list of page results \<open>combinePageAnalyses\<close> returns the narratives of
  the pages that did not fail, each labelled with its page number, joined in the order of
  the list, and the message that extraction failed when every page failed; the combined
  narrative is never empty. A page counts as failed when the test \<open>analysis.error\<close> of the
  source holds, that is when it carries an error message.
\<close>

theorem combinePageAnalyses_labels:
  "combinePageAnalyses pages
     = (if list_all (\<lambda>a. truthy (page_analysis.error a)) pages
        then ''Failed to extract information from document pages''
        else js_join ''\<newline>\<newline>'' (spec_labels pages))
   \<and> combinePageAnalyses pages \<noteq> []"
proof -
  let ?valid = "filter (\<lambda>a. \<not> truthy (page_analysis.error a)) pages"
  have e: "(?valid = []) = list_all (\<lambda>a. truthy (page_analysis.error a)) pages"
    by (simp add: filter_empty_conv list_all_iff)
  have a: "combinePageAnalyses pages
     = (if list_all (\<lambda>a. truthy (page_analysis.error a)) pages
        then ''Failed to extract information from document pages''
        else js_join ''\<newline>\<newline>'' (spec_labels pages))"
    by (simp add: combinePageAnalyses_def Let_def spec_labels_filter e [symmetric])
  have b: "combinePageAnalyses pages \<noteq> []"
  proof (cases "?valid = []")
    case True
    then show ?thesis by (simp add: combinePageAnalyses_def)
  next
    case False
    then have "hd (map page_label ?valid) \<noteq> []"
      by (simp add: hd_map page_label_nonempty)
    with False have "js_join ''\<newline>\<newline>'' (map page_label ?valid) \<noteq> []"
      by (intro js_join_nonempty) simp_all
    then show ?thesis using False by (simp add: combinePageAnalyses_def Let_def)
  qed
  from a b show ?thesis by blast
qed


theorem combinePageAnalyses_labels_witness:
  "combinePageAnalyses
     [page_entry 0 ''/tmp/p1.png'' (Inl ''Failed to analyze image after 4 attempts: socket hang up''),
      page_entry 1 ''/tmp/p2.png'' (Inr ''Revenue 120''),
      page_entry 2 ''/tmp/p3.png'' (Inr ''Costs 80'')]
     = ''Page 2: Revenue 120\<newline>\<newline>Page 3: Costs 80''
   \<and> combinePageAnalyses
       [page_entry 0 ''/tmp/p1.png'' (Inl ''Failed to analyze image after 4 attempts: socket hang up'')]
     = ''Failed to extract information from document pages''"
proof -
  have s: "show_nat (Suc (Suc 0)) = ''2''" "show_nat 3 = ''3''"
    by (simp_all add: show_nat.simps digit_char_def)
  show ?thesis
    using combinePageAnalyses_labels
      [of "[page_entry 0 ''/tmp/p1.png''
              (Inl ''Failed to analyze image after 4 attempts: socket hang up''),
            page_entry 1 ''/tmp/p2.png'' (Inr ''Revenue 120''),
            page_entry 2 ''/tmp/p3.png'' (Inr ''Costs 80'')]"]
      combinePageAnalyses_labels
      [of "[page_entry 0 ''/tmp/p1.png''
              (Inl ''Failed to analyze image after 4 attempts: socket hang up'')]"]
    by (simp add: page_entry_def truthy_def s)
qed


section \<open>Properties of the Document Normalizer\<close>

lemma probe_fails_next:
  "\<not> probe_succeeds (pr password) \<Longrightarrow>
     probe_passwords pr path (password # rest) st
       = probe_passwords pr path rest (st\<lparr>probes := probes st @ [password]\<rparr>)"
  by (cases "pr password") (simp_all add: probe_succeeds_def Let_def)

lemma probe_succeeds_stop:
  "pr password = Decrypted bytes \<Longrightarrow>
     probe_passwords pr path (password # rest) st
       = (Inr path, st\<lparr>probes := probes st @ [password],
                        written := written st @ [(path, bytes)]\<rparr>)"
  by (simp add: Let_def)

lemma probe_passwords_run:
  "probe_passwords pr path passwords st =
     (case find (\<lambda>p. probe_succeeds (pr p)) passwords of
        None \<Rightarrow>
          (Inl ''Could not decrypt PDF - password protected'',
           st\<lparr>probes := probes st @ passwords\<rparr>)
      | Some p \<Rightarrow>
          (Inr path,
           st\<lparr>probes := probes st @ takeWhile (\<lambda>p. \<not> probe_succeeds (pr p)) passwords @ [p],
              written := written st @
                [(path, case pr p of Decrypted bytes \<Rightarrow> bytes | _ \<Rightarrow> [])]\<rparr>))"
proof (induction passwords arbitrary: st)
  case Nil
  then show ?case by simp
next
  case (Cons password rest)
  show ?case
  proof (cases "probe_succeeds (pr password)")
    case True
    then obtain bytes where b: "pr password = Decrypted bytes"
      by (cases "pr password") (simp_all add: probe_succeeds_def)
    have step: "probe_passwords pr path (password # rest) st
        = (Inr path, st\<lparr>probes := probes st @ [password],
                         written := written st @ [(path, bytes)]\<rparr>)"
      using b by (rule probe_succeeds_stop)
    show ?thesis unfolding step using True b by simp
  next
    case False
    have step: "probe_passwords pr path (password # rest) st
        = probe_passwords pr path rest (st\<lparr>probes := probes st @ [password]\<rparr>)"
      using False by (rule probe_fails_next)
    show ?thesis
      unfolding step Cons.IH using False
      by (simp split: option.splits del: probe_passwords.simps)
  qed
qed

lemma encrypted_probe_fails:
  "pdf_password fw = Some stored_password \<Longrightarrow> \<not> probe_succeeds (probe_result fw password)"
  by (simp add: probe_result_def PDFDocument_load_def probe_succeeds_def
      split: probe_io.splits option.splits)

lemma find_probe_none:
  "pdf_password fw = Some stored_password \<Longrightarrow>
     find (\<lambda>p. probe_succeeds (probe_result fw p)) passwords = None"
  by (induction passwords) (simp_all add: encrypted_probe_fails)

text \<open>
  Whatever password a PDF is encrypted with, every probe throws at \<open>PDFDocument.load\<close>: the
  loop runs through the whole list, writes nothing and ends with the decryption error.
\<close>

lemma handleEncryptedPDF_encrypted:
  assumes "pdf_password fw = Some stored_password"
  shows "handleEncryptedPDF fw tempDir' documentId' st
           = (Inl ''Could not decrypt PDF - password protected'',
              st\<lparr>probes := probes st @ commonPasswords\<rparr>)"
  unfolding handleEncryptedPDF_def probe_passwords_run find_probe_none [OF assms]
  by simp

lemma admin_encrypted_document:
  "fst (processDocument admin_encrypted_pdf ''/srv/temp'' ''/srv/uploads/a2-ledger.pdf''
          \<lparr> file_id = ''f1'', originalName = ''ledger.pdf'', doc_type = ''bank-statement'',
            mimetype = ''application/pdf'', file_size = 4096, filename = ''a2-ledger.pdf'' \<rparr>
          initial_state)
     = Inl ''Failed to process ledger.pdf: Failed to process PDF: Could not decrypt PDF - password protected''"
proof -
  have p: "pdf_password admin_encrypted_pdf = Some ''admin''"
    by (simp add: admin_encrypted_pdf_def)
  have l: "PDFDocument_load admin_encrypted_pdf = Inl encrypted_message"
    by (simp add: PDFDocument_load_def admin_encrypted_pdf_def)
  have i: "js_includes encrypted_message ''encrypted''"
    by (simp add: encrypted_message_def startsWith_def)
  have r: "readFile_error admin_encrypted_pdf = None"
    by (simp add: admin_encrypted_pdf_def)
  show ?thesis
    by (simp add: processDocument_def processPDF_def Let_def l i r
        handleEncryptedPDF_encrypted [OF p])
qed

text \<open>
  Claim C6 says that the password probing stops at the first password that opens the
  document, so that a PDF encrypted with admin is decrypted by the fourth probe. The code
  tries the five passwords in the order of the list, as the claim says, but it hands the
  password to \<open>PDFDocument.load\<close>, which does not read it: for the PDF encrypted with admin
  all five probes throw, no copy is written, \<open>handleEncryptedPDF\<close> throws the decryption
  error and \<open>processDocument\<close> fails for the document.
\<close>

theorem admin_encrypted_pdf_not_decrypted:
  "pdf_password admin_encrypted_pdf = Some ''admin''
   \<and> fst (handleEncryptedPDF admin_encrypted_pdf ''/srv/temp'' ''f1'' initial_state)
       = Inl ''Could not decrypt PDF - password protected''
   \<and> probes (snd (handleEncryptedPDF admin_encrypted_pdf ''/srv/temp'' ''f1'' initial_state))
       = ['''', ''password'', ''123456'', ''admin'', ''user'']
   \<and> written (snd (handleEncryptedPDF admin_encrypted_pdf ''/srv/temp'' ''f1'' initial_state)) = []
   \<and> fst (processDocument admin_encrypted_pdf ''/srv/temp'' ''/srv/uploads/a2-ledger.pdf''
          \<lparr> file_id = ''f1'', originalName = ''ledger.pdf'', doc_type = ''bank-statement'',
            mimetype = ''application/pdf'', file_size = 4096, filename = ''a2-ledger.pdf'' \<rparr>
          initial_state)
       = Inl ''Failed to process ledger.pdf: Failed to process PDF: Could not decrypt PDF - password protected''"
proof -
  have p: "pdf_password admin_encrypted_pdf = Some ''admin''"
    by (simp add: admin_encrypted_pdf_def)
  show ?thesis
    using p admin_encrypted_document
    by (simp add: handleEncryptedPDF_encrypted [OF p] initial_state_def commonPasswords_def)
qed


section \<open>Properties of the analyze request\<close>

lemma probe_passwords_fst:
  "fst (probe_passwords pr path passwords st) = fst (probe_passwords pr path passwords st')"
  by (simp add: probe_passwords_run split: option.splits)

lemma probe_passwords_events:
  "events (snd (probe_passwords pr path passwords st)) = events st"
  by (simp add: probe_passwords_run split: option.splits)

lemma processPDF_fst:
  "fst (processPDF fw t p d st) = fst (processPDF fw t p d st')"
  using probe_passwords_fst [of "probe_result fw" "path_join t (d @ ''_unencrypted.pdf'')" commonPasswords st st']
  by (simp add: processPDF_def handleEncryptedPDF_def Let_def split: option.splits sum.splits)

lemma processPDF_events:
  "events (snd (processPDF fw t p d st)) = events st"
  by (simp add: processPDF_def handleEncryptedPDF_def Let_def probe_passwords_events
      split: option.splits sum.splits)

lemma processDocument_fst:
  "fst (processDocument fw t p f st) = fst (processDocument fw t p f st')"
  using processPDF_fst [of fw t p "file_id f" st st']
  by (simp add: processDocument_def Let_def split: sum.splits)

lemma processDocument_events:
  "events (snd (processDocument fw t p f st)) = events st"
  by (simp add: processDocument_def Let_def processPDF_events split: sum.splits)

lemma sendProgress_events:
  "events (sendProgress step progress message st) = events st @ [Progress step progress message]"
  by (simp add: sendProgress_def)

lemma processes_ok_iff:
  "processes_ok w file \<longleftrightarrow>
     pathExists (file_env w (path_join (uploadsDir w) (filename file))) \<and>
     \<not> isl (fst (processDocument (file_env w (path_join (uploadsDir w) (filename file)))
                    (tempDir w) (path_join (uploadsDir w) (filename file)) file st))"
  unfolding processes_ok_def
  using processDocument_fst [of _ _ _ _ initial_state st] by simp

lemma step_missing:
  assumes "\<not> pathExists (file_env w (path_join (uploadsDir w) (filename upload)))"
  shows "process_files w n fileIndex (upload # rest) processed st
       = process_files w n (fileIndex + 1) rest processed
           (sendProgress ''processing'' (of_nat fileIndex / of_nat n * 60 + 60 / of_nat n)
              (''File not found: '' @ originalName upload)
              (sendProgress ''processing'' (of_nat fileIndex / of_nat n * 60 + 5)
                 (''Processing '' @ originalName upload @ ''...'') st))"
  using assms by (simp add: Let_def)

lemma step_processed:
  assumes "pathExists (file_env w (path_join (uploadsDir w) (filename upload)))"
    and "fst (processDocument (file_env w (path_join (uploadsDir w) (filename upload)))
                (tempDir w) (path_join (uploadsDir w) (filename upload)) upload
                (sendProgress ''processing'' (of_nat fileIndex / of_nat n * 60 + 5)
                   (''Processing '' @ originalName upload @ ''...'') st)) = Inr doc"
  shows "process_files w n fileIndex (upload # rest) processed st
       = process_files w n (fileIndex + 1) rest (processed @ [doc])
           (sendProgress ''processing'' (of_nat fileIndex / of_nat n * 60 + 60 / of_nat n)
              (''Completed processing '' @ originalName upload)
              (snd (processDocument (file_env w (path_join (uploadsDir w) (filename upload)))
                (tempDir w) (path_join (uploadsDir w) (filename upload)) upload
                (sendProgress ''processing'' (of_nat fileIndex / of_nat n * 60 + 5)
                   (''Processing '' @ originalName upload @ ''...'') st))))"
  using assms by (simp add: Let_def)

lemma step_failed:
  assumes "pathExists (file_env w (path_join (uploadsDir w) (filename upload)))"
    and "fst (processDocument (file_env w (path_join (uploadsDir w) (filename upload)))
                (tempDir w) (path_join (uploadsDir w) (filename upload)) upload
                (sendProgress ''processing'' (of_nat fileIndex / of_nat n * 60 + 5)
                   (''Processing '' @ originalName upload @ ''...'') st)) = Inl e"
  shows "process_files w n fileIndex (upload # rest) processed st
       = process_files w n (fileIndex + 1) rest processed
           (sendProgress ''processing'' (of_nat fileIndex / of_nat n * 60 + 60 / of_nat n)
              (''Error processing '' @ originalName upload @ '': '' @ e)
              (snd (processDocument (file_env w (path_join (uploadsDir w) (filename upload)))
                (tempDir w) (path_join (uploadsDir w) (filename upload)) upload
                (sendProgress ''processing'' (of_nat fileIndex / of_nat n * 60 + 5)
                   (''Processing '' @ originalName upload @ ''...'') st))))"
  using assms by (simp add: Let_def)

lemma process_files_step:
  "\<exists>message processed' st2.
     process_files w n fileIndex (upload # rest) processed st
       = process_files w n (fileIndex + 1) rest processed'
           (sendProgress ''processing'' (of_nat fileIndex / of_nat n * 60 + 60 / of_nat n)
              message st2)
     \<and> events st2 = events st @ [Progress ''processing'' (of_nat fileIndex / of_nat n * 60 + 5)
                                   (''Processing '' @ originalName upload @ ''...'')]
     \<and> length processed' = length processed + (if processes_ok w upload then 1 else 0)"
proof -
  let ?base = "of_nat fileIndex / of_nat n * 60 :: rat"
  let ?st1 = "sendProgress ''processing'' (?base + 5) (''Processing '' @ originalName upload @ ''...'') st"
  let ?path = "path_join (uploadsDir w) (filename upload)"
  let ?attempt = "processDocument (file_env w ?path) (tempDir w) ?path upload ?st1"
  have ok: "processes_ok w upload \<longleftrightarrow> pathExists (file_env w ?path) \<and> \<not> isl (fst ?attempt)"
    by (rule processes_ok_iff)
  have ev1: "events ?st1 = events st @ [Progress ''processing'' (?base + 5)
                                   (''Processing '' @ originalName upload @ ''...'')]"
    by (rule sendProgress_events)
  have ev2: "events (snd ?attempt) = events st @ [Progress ''processing'' (?base + 5)
                                   (''Processing '' @ originalName upload @ ''...'')]"
    unfolding processDocument_events by (rule ev1)
  show ?thesis
  proof (cases "pathExists (file_env w ?path)")
    case False
    have "\<not> processes_ok w upload" using False ok by blast
    then have "length processed = length processed + (if processes_ok w upload then 1 else 0)"
      by simp
    with step_missing [OF False, of n fileIndex rest processed st] ev1
    show ?thesis by blast
  next
    case True
    show ?thesis
    proof (cases "fst ?attempt")
      case (Inr doc)
      have "processes_ok w upload" using True Inr ok by simp
      then have "length (processed @ [doc])
                   = length processed + (if processes_ok w upload then 1 else 0)"
        by simp
      with step_processed [OF True Inr, of rest processed] ev2
      show ?thesis by blast
    next
      case (Inl e)
      have "\<not> processes_ok w upload" using Inl ok by simp
      then have "length processed = length processed + (if processes_ok w upload then 1 else 0)"
        by simp
      with step_failed [OF True Inl, of rest processed] ev2
      show ?thesis by blast
    qed
  qed
qed

lemma process_files_run:
  "\<exists>during. events (snd (process_files w n fileIndex files processed st)) = events st @ during
     \<and> list_all is_processing_event during
     \<and> length (fst (process_files w n fileIndex files processed st))
         = length processed + length (filter (processes_ok w) files)
     \<and> (files \<noteq> [] \<longrightarrow>
          map event_progress (take 1 during) = [of_nat fileIndex / of_nat n * 60 + 5])"
proof (induction files arbitrary: fileIndex processed st)
  case Nil
  then show ?case by simp
next
  case (Cons upload rest)
  let ?base = "of_nat fileIndex / of_nat n * 60 :: rat"
  let ?first = "Progress ''processing'' (?base + 5) (''Processing '' @ originalName upload @ ''...'')"
  from process_files_step [of w n fileIndex upload rest processed st]
  obtain message processed' st2 where next_call:
    "process_files w n fileIndex (upload # rest) processed st
       = process_files w n (fileIndex + 1) rest processed'
           (sendProgress ''processing'' (?base + 60 / of_nat n) message st2)"
    "events st2 = events st @ [?first]"
    "length processed' = length processed + (if processes_ok w upload then 1 else 0)"
    by blast
  let ?st3 = "sendProgress ''processing'' (?base + 60 / of_nat n) message st2"
  from Cons.IH [of "fileIndex + 1" processed' ?st3]
  obtain during where d:
    "events (snd (process_files w n (fileIndex + 1) rest processed' ?st3)) = events ?st3 @ during"
    "list_all is_processing_event during"
    "length (fst (process_files w n (fileIndex + 1) rest processed' ?st3))
       = length processed' + length (filter (processes_ok w) rest)"
    by blast
  let ?during = "?first # Progress ''processing'' (?base + 60 / of_nat n) message # during"
  have ev3: "events ?st3 = events st @ [?first, Progress ''processing'' (?base + 60 / of_nat n) message]"
    by (simp add: sendProgress_events next_call(2))
  have a: "events (snd (process_files w n fileIndex (upload # rest) processed st))
             = events st @ ?during"
    unfolding next_call(1) d(1) ev3 by simp
  have b: "list_all is_processing_event ?during"
    using d(2) by (simp add: is_processing_event_def)
  have c: "length (fst (process_files w n fileIndex (upload # rest) processed st))
         = length processed + length (filter (processes_ok w) (upload # rest))"
    unfolding next_call(1) d(3) next_call(3) by simp
  have e: "upload # rest \<noteq> [] \<longrightarrow> map event_progress (take 1 ?during) = [?base + 5]" by simp
  show ?case by (intro exI [of _ ?during] conjI a b c e)
qed

lemma analyzeMultipleImages_events:
  "events (snd (analyzeMultipleImages infer imagePaths prompt st)) = events st"
proof -
  have "0 \<le> length imagePaths" by simp
  from analyzeMultipleImages_from_run [OF this, of infer prompt "[]" st]
  obtain ks where
    "snd (analyzeMultipleImages_from infer imagePaths prompt 0 [] st)
       = st\<lparr>requests := requests st + sum_list ks,
            trace := trace st @ batch_trace imagePaths prompt 0 ks\<rparr>"
    by blast
  then show ?thesis by (simp add: analyzeMultipleImages_def)
qed

lemma analyzeDocument_events:
  "events (snd (analyzeDocument infer doc st)) = events st"
  by (simp add: analyzeDocument_def Let_def analyzeMultipleImages_events)

lemma extract_documents_events:
  "\<exists>new. events (snd (extract_documents w n docIndex docs extractedData st)) = events st @ new
     \<and> list_all is_analysis_event new"
proof (induction docs arbitrary: docIndex extractedData st)
  case Nil
  then show ?case by simp
next
  case (Cons doc rest)
  let ?progress = "80 + (of_nat (docIndex + 1) / of_nat n) * 15 :: rat"
  let ?event = "Progress ''analysis'' ?progress (''Analyzing '' @ originalName doc @ ''...'')"
  let ?st1 = "sendProgress ''analysis'' ?progress (''Analyzing '' @ originalName doc @ ''...'') st"
  let ?outcome = "analyzeDocument (image_inference w) doc ?st1"
  have unfold: "extract_documents w n docIndex (doc # rest) extractedData st
      = extract_documents w n (docIndex + 1) rest
          (extractedData @ [extracted_entry doc (fst ?outcome)]) (snd ?outcome)"
    by (simp add: Let_def)
  from Cons.IH [of "docIndex + 1" "extractedData @ [extracted_entry doc (fst ?outcome)]"
                  "snd ?outcome"]
  obtain new where n:
    "events (snd (extract_documents w n (docIndex + 1) rest
        (extractedData @ [extracted_entry doc (fst ?outcome)]) (snd ?outcome)))
       = events (snd ?outcome) @ new"
    "list_all is_analysis_event new"
    by blast
  have ev: "events (snd ?outcome) = events st @ [?event]"
    by (simp add: analyzeDocument_events sendProgress_events)
  have a: "events (snd (extract_documents w n docIndex (doc # rest) extractedData st))
             = events st @ (?event # new)"
    unfolding unfold n(1) ev by simp
  have b: "list_all is_analysis_event (?event # new)"
    using n(2) by (simp add: is_analysis_event_def)
  show ?case by (intro exI [of _ "?event # new"] conjI a b)
qed

lemma analyzeDocuments_run:
  "\<exists>new. events (snd (analyzeDocuments w docs st)) = events st @ new
     \<and> list_all is_analysis_event new
     \<and> (case fst (analyzeDocuments w docs st) of
           Inr a \<Rightarrow> True
         | Inl e \<Rightarrow> take 36 e = ''Failed to complete credit analysis: '')"
proof -
  let ?download = "Progress ''analysis'' 75 ''Downloading AI model (this may take a few minutes)...''"
  let ?st1 = "if modelAvailable w then st
              else sendProgress ''analysis'' 75
                     ''Downloading AI model (this may take a few minutes)...'' st"
  let ?pre = "if modelAvailable w then [] else [?download]"
  have ev1: "events ?st1 = events st @ ?pre" by (simp add: sendProgress_events)
  have pre: "list_all is_analysis_event ?pre" by (simp add: is_analysis_event_def)
  show ?thesis
  proof (cases "if modelAvailable w then None else pullModel_error w")
    case (Some e)
    then have "analyzeDocuments w docs st
        = (Inl (''Failed to complete credit analysis: '' @
                ''Failed to pull model '' @ model_name @ '': '' @ e), ?st1)"
      by (simp add: analyzeDocuments_def Let_def)
    then show ?thesis using ev1 pre by (intro exI [of _ ?pre]) simp
  next
    case None
    let ?extracting = "Progress ''analysis'' 80 ''Extracting financial data from documents...''"
    let ?generating = "Progress ''analysis'' 95 ''Generating credit recommendation...''"
    let ?st2 = "sendProgress ''analysis'' 80 ''Extracting financial data from documents...'' ?st1"
    let ?extraction = "extract_documents w (length docs) 0 docs [] ?st2"
    let ?st3 = "sendProgress ''analysis'' 95 ''Generating credit recommendation...'' (snd ?extraction)"
    obtain new where n: "events (snd ?extraction) = events ?st2 @ new"
      "list_all is_analysis_event new"
      using extract_documents_events [of w "length docs" 0 docs "[]" ?st2] by blast
    obtain r where r: "generateCreditAnalysis (JSON_parse w) (report_fetch w) (fst ?extraction) = Inr r"
      using generateCreditAnalysis_total by blast
    have run: "analyzeDocuments w docs st
        = (Inr \<lparr> creditAnalysis = r, documentAnalysis = fst ?extraction,
                  totalDocuments = length docs, documentTypes = map doc_type docs \<rparr>, ?st3)"
      using None r by (simp add: analyzeDocuments_def Let_def)
    have ev: "events ?st3 = events st @ (?pre @ ?extracting # new @ [?generating])"
      by (simp add: sendProgress_events n(1) ev1)
    have all: "list_all is_analysis_event (?pre @ ?extracting # new @ [?generating])"
      using n(2) by (simp add: is_analysis_event_def)
    show ?thesis
      unfolding run using ev all
      by (intro exI [of _ "?pre @ ?extracting # new @ [?generating]"]) simp
  qed
qed





text \<open>
  The percentages of the progress events are not monotone: whenever the connectivity check
  succeeds, the handler sends 5 for initialization, 10 for the start of processing, and then
  \<open>progressBase + 5 = 5\<close> for the first file.
\<close>

lemma first_file_progress:
  assumes "files \<noteq> []" and "connection_ok w"
  shows "\<exists>rest. map event_progress (events (snd (analyze_request w files st)))
           = map event_progress (events st) @ 5 # 10 # 5 # rest"
proof -
  let ?st1 = "sendProgress ''initialization'' 5 ''Checking AI service connection...'' st"
  let ?st2 = "sendProgress ''processing'' 10 ''Starting document processing...'' ?st1"
  let ?processing = "process_files w (length files) 0 files [] ?st2"
  from process_files_run [of w "length files" 0 files "[]" ?st2]
  obtain during where d:
    "events (snd ?processing) = events ?st2 @ during"
    "files \<noteq> [] \<longrightarrow>
       map event_progress (take 1 during) = [of_nat 0 / of_nat (length files) * 60 + 5]"
    by (elim exE conjE) (rule that)
  from d(2) assms(1) have t: "map event_progress (take 1 during) = [5]" by simp
  then obtain e later where dl: "during = e # later" by (cases during) simp_all
  with t have e: "event_progress e = 5" by simp
  have ev2: "events ?st2 = events st
       @ [Progress ''initialization'' 5 ''Checking AI service connection...'',
          Progress ''processing'' 10 ''Starting document processing...'']"
    by (simp add: sendProgress_events)
  have p: "map event_progress (events (snd ?processing))
             = map event_progress (events st) @ 5 # 10 # 5 # map event_progress later"
    unfolding d(1) ev2 dl using e by simp
  have mono: "\<exists>more. events (snd (run_analysis w files st)) = events (snd ?processing) @ more"
  proof (cases "length (fst ?processing) = 0")
    case True
    then have "run_analysis w files st
                 = (Inl ''No documents could be processed successfully'', snd ?processing)"
      using assms(2) by (simp add: run_analysis_def Let_def)
    then show ?thesis by simp
  next
    case False
    let ?st3 = "sendProgress ''analysis'' 70 ''Analyzing documents with AI...'' (snd ?processing)"
    let ?analysed = "analyzeDocuments w (fst ?processing) ?st3"
    from analyzeDocuments_run [of w "fst ?processing" ?st3]
    obtain new where n: "events (snd ?analysed) = events ?st3 @ new"
      by (elim exE conjE) (rule that)
    show ?thesis
    proof (cases "fst ?analysed")
      case (Inr a)
      have "run_analysis w files st
          = (Inr a, sendProgress ''complete'' 100 ''Analysis complete!'' (snd ?analysed))"
        using assms(2) False Inr by (simp add: run_analysis_def Let_def)
      then show ?thesis by (simp add: sendProgress_events n)
    next
      case (Inl e)
      have "run_analysis w files st = (Inl e, snd ?analysed)"
        using assms(2) False Inl by (simp add: run_analysis_def Let_def)
      then show ?thesis by (simp add: sendProgress_events n)
    qed
  qed
  then obtain more where m: "events (snd (run_analysis w files st)) = events (snd ?processing) @ more"
    by (rule exE)
  have "\<exists>final. events (snd (analyze_request w files st))
          = events (snd (run_analysis w files st)) @ final"
    using assms(1) by (cases "fst (run_analysis w files st)") (simp_all add: analyze_request_def Let_def)
  then obtain final where f: "events (snd (analyze_request w files st))
          = events (snd (run_analysis w files st)) @ final"
    by (rule exE)
  have "map event_progress (events (snd (analyze_request w files st)))
          = map event_progress (events st)
            @ 5 # 10 # 5 # (map event_progress later @ map event_progress (more @ final))"
    unfolding f m map_append p by simp
  then show ?thesis by (rule exI)
qed

lemma stored_csv_progress:
  "map event_progress
     (events (snd (analyze_request example_world [example_file ''a1-ledger.csv''] initial_state)))
     = [5, 10, 5, 60, 70, 80, 95, 95, 100, 100]"
  by (simp add: analyze_request_def run_analysis_def Let_def example_world_def example_file_def
      initial_state_def sendProgress_def path_join_def stored_csv_def processDocument_def
      extractTextFromFile_def analyzeDocuments_def analyzeDocument_def
      generateCreditAnalysis_def try_catch_def)

text \<open>
  Claim C3 says that the progress percentages of a request never decrease. The handler does
  not keep to it: for one stored spreadsheet export and a reachable backend it sends the
  percentages 5, 10, 5, 60, 70, 80, 95, 95, 100 and 100, the third below the second.
\<close>

theorem progress_drops_at_first_file:
  "map event_progress
     (events (snd (analyze_request example_world [example_file ''a1-ledger.csv''] initial_state)))
     = [5, 10, 5, 60, 70, 80, 95, 95, 100, 100]
   \<and> \<not> sorted (map event_progress
        (events (snd (analyze_request example_world [example_file ''a1-ledger.csv''] initial_state))))"
  unfolding stored_csv_progress by simp

end
